theory Spec2Isabelle
  imports Complex_Main
begin

section \<open>Data model of delaunay.py\<close>

text \<open>
  A point is a pair of integer coordinates, a colour a triple of integer channels, a
  gradient a pair of colours (start, end), a triangle the list of its vertices.
  \<open>int(x)\<close> on a float truncates toward zero.
\<close>

type_synonym point = "int \<times> int"
type_synonym color = "int \<times> int \<times> int"
type_synonym grad = "color \<times> color"
type_synonym triangle = "point list"

datatype error =
  ValueError | IndexError | KeyError | IOError | NameError | ZeroDivisionError | OverflowError

definition py_int :: "real \<Rightarrow> int" where
  "py_int x = (if 0 \<le> x then \<lfloor>x\<rfloor> else \<lceil>x\<rceil>)"

subsection \<open>Python floats\<close>

text \<open>
  A Python float is an IEEE 754 binary64 value: a finite number, an infinity or NaN. A
  finite float is given by the real number it denotes (the sign of zero is not kept: no
  operation used here depends on it). \<open>fl\<close> rounds a real to the nearest float,
  ties to the even significand: the spacing at \<open>x\<close> is \<open>ulp x\<close>, 52 binary places below
  the exponent of \<open>x\<close>, and not finer than that of the least normal exponent - 1022; a
  result of magnitude 2 to the 1024 or more is an infinity.
\<close>

datatype pyfloat = Fin real | PInf | NInf | NaN

definition round_even :: "real \<Rightarrow> int" where
  "round_even x =
     (let f = \<lfloor>x\<rfloor>; r = x - of_int f
      in if r < 1 / 2 then f else if 1 / 2 < r then f + 1 else if even f then f else f + 1)"

definition binade :: "real \<Rightarrow> int" where
  "binade x = max \<lfloor>log 2 \<bar>x\<bar>\<rfloor> (- 1022)"

definition ulp :: "real \<Rightarrow> real" where
  "ulp x = 2 powi (binade x - 52)"

definition fl :: "real \<Rightarrow> pyfloat" where
  "fl x =
     (if x = 0 then Fin 0
      else let r = of_int (round_even (x / ulp x)) * ulp x
           in if 2 ^ 1024 \<le> \<bar>r\<bar> then (if 0 < r then PInf else NInf) else Fin r)"

text \<open>The sign of a float as a number, and the infinity (or NaN) of a given sign.\<close>

fun fsign :: "pyfloat \<Rightarrow> real" where
  "fsign (Fin a) = sgn a"
| "fsign PInf = 1"
| "fsign NInf = - 1"
| "fsign NaN = 0"

definition inf_of :: "real \<Rightarrow> pyfloat" where
  "inf_of x = (if 0 < x then PInf else if x < 0 then NInf else NaN)"

text \<open>
  \<open>float(n)\<close> for an integer, as the arithmetic operators and \<open>math.sqrt\<close> apply it
  to an integer operand: OverflowError when the integer is beyond the float range.
\<close>

definition float_of_int :: "int \<Rightarrow> error + pyfloat" where
  "float_of_int n = (case fl (of_int n) of Fin r \<Rightarrow> Inr (Fin r) | _ \<Rightarrow> Inl OverflowError)"

text \<open>\<open>x * y\<close> and \<open>x + y\<close> on floats never raise: they overflow to an infinity.\<close>

fun fmul :: "pyfloat \<Rightarrow> pyfloat \<Rightarrow> pyfloat" where
  "fmul (Fin a) (Fin b) = fl (a * b)"
| "fmul NaN y = NaN"
| "fmul x NaN = NaN"
| "fmul x y = inf_of (fsign x * fsign y)"

fun fadd :: "pyfloat \<Rightarrow> pyfloat \<Rightarrow> pyfloat" where
  "fadd (Fin a) (Fin b) = fl (a + b)"
| "fadd NaN y = NaN"
| "fadd x NaN = NaN"
| "fadd PInf NInf = NaN"
| "fadd NInf PInf = NaN"
| "fadd PInf y = PInf"
| "fadd x PInf = PInf"
| "fadd NInf y = NInf"
| "fadd x NInf = NInf"

text \<open>\<open>x / y\<close> on floats raises ZeroDivisionError for a zero divisor, whatever \<open>x\<close> is.\<close>

fun fdiv :: "pyfloat \<Rightarrow> pyfloat \<Rightarrow> error + pyfloat" where
  "fdiv x (Fin b) =
     (if b = 0 then Inl ZeroDivisionError
      else case x of
             Fin a \<Rightarrow> Inr (fl (a / b))
           | NaN \<Rightarrow> Inr NaN
           | _ \<Rightarrow> Inr (inf_of (fsign x * b)))"
| "fdiv x NaN = Inr NaN"
| "fdiv NaN y = Inr NaN"
| "fdiv (Fin a) y = Inr (Fin 0)"
| "fdiv x y = Inr NaN"

text \<open>\<open>math.sqrt\<close>: correctly rounded; ValueError for a negative argument.\<close>

fun fsqrt :: "pyfloat \<Rightarrow> error + pyfloat" where
  "fsqrt (Fin a) = (if a < 0 then Inl ValueError else Inr (fl (sqrt a)))"
| "fsqrt PInf = Inr PInf"
| "fsqrt NInf = Inl ValueError"
| "fsqrt NaN = Inr NaN"

text \<open>
  \<open>x ** 2\<close> on a float: the rounded square; unlike the product, a finite square that
  overflows raises OverflowError.
\<close>

fun fpow2 :: "pyfloat \<Rightarrow> error + pyfloat" where
  "fpow2 (Fin a) = (case fl (a * a) of Fin r \<Rightarrow> Inr (Fin r) | _ \<Rightarrow> Inl OverflowError)"
| "fpow2 PInf = Inr PInf"
| "fpow2 NInf = Inr PInf"
| "fpow2 NaN = Inr NaN"

text \<open>\<open>int(x)\<close> on a float: OverflowError for an infinity, ValueError for NaN.\<close>

fun int_of_float :: "pyfloat \<Rightarrow> error + int" where
  "int_of_float (Fin a) = Inr (py_int a)"
| "int_of_float PInf = Inl OverflowError"
| "int_of_float NInf = Inl OverflowError"
| "int_of_float NaN = Inl ValueError"

text \<open>Sequencing of computations that may raise.\<close>

definition ebind :: "error + 'a \<Rightarrow> ('a \<Rightarrow> error + 'b) \<Rightarrow> error + 'b" where
  "ebind m f = (case m of Inl e \<Rightarrow> Inl e | Inr x \<Rightarrow> f x)"

subsection \<open>cart_to_screen (lines 14-19)\<close>

fun cart_loop :: "point list \<Rightarrow> int \<times> int \<Rightarrow> point list \<Rightarrow> point list" where
  "cart_loop [] sz trans_points = trans_points"
| "cart_loop (p # ps) sz trans_points =
     cart_loop ps sz (trans_points @ [(fst p, snd sz - snd p)])"

definition cart_to_screen :: "point list \<Rightarrow> int \<times> int \<Rightarrow> point list" where
  "cart_to_screen points sz = (if points \<noteq> [] then cart_loop points sz [] else [])"

subsection \<open>calculate_color (lines 25-40)\<close>

text \<open>
  Lines 31-33, one channel: \<open>int(start + slope*val)\<close> with the two integers converted
  to floats by the float operand \<open>val\<close>.
\<close>

definition interp_channel :: "int \<Rightarrow> int \<Rightarrow> pyfloat \<Rightarrow> error + int" where
  "interp_channel start slope val =
     ebind (float_of_int slope) (\<lambda>fslope.
     ebind (float_of_int start) (\<lambda>fstart.
     int_of_float (fadd fstart (fmul fslope val))))"

definition calculate_color :: "grad \<Rightarrow> pyfloat \<Rightarrow> error + color" where
  "calculate_color grad val =
     (let slope_r = fst (snd grad) - fst (fst grad);
          slope_g = fst (snd (snd grad)) - fst (snd (fst grad));
          slope_b = snd (snd (snd grad)) - snd (snd (fst grad))
      in ebind (interp_channel (fst (fst grad)) slope_r val) (\<lambda>r.
         ebind (interp_channel (fst (snd (fst grad))) slope_g val) (\<lambda>g.
         ebind (interp_channel (snd (snd (fst grad))) slope_b val) (\<lambda>b.
         Inr (min (max r 0) 255, min (max g 0) 255, min (max b 0) 255)))))"

text \<open>A colour whose three channels lie in the 8-bit range.\<close>

definition color_ok :: "color \<Rightarrow> bool" where
  "color_ok c = (0 \<le> fst c \<and> fst c \<le> 255 \<and> 0 \<le> fst (snd c) \<and> fst (snd c) \<le> 255
     \<and> 0 \<le> snd (snd c) \<and> snd (snd c) \<le> 255)"

text \<open>
  The spec's wording of one output channel, read in exact real arithmetic:
  start + (end - start) * t, truncated toward zero (sign times the floor of the
  magnitude), then clamped to 0..255.
\<close>

definition trunc_toward_zero :: "real \<Rightarrow> int" where
  "trunc_toward_zero x = (if x < 0 then - \<lfloor>- x\<rfloor> else \<lfloor>x\<rfloor>)"

definition channel_spec :: "int \<Rightarrow> int \<Rightarrow> real \<Rightarrow> int" where
  "channel_spec s e t =
     (let v = trunc_toward_zero (of_int s + (of_int e - of_int s) * t)
      in if v < 0 then 0 else if 255 < v then 255 else v)"

text \<open>
  The same wording read in float arithmetic: the product and then the sum are each
  rounded to the nearest float (\<open>nearest\<close> is that float, for a real within range).
\<close>

definition nearest :: "real \<Rightarrow> real" where
  "nearest x = (case fl x of Fin r \<Rightarrow> r | _ \<Rightarrow> 0)"

definition channel_float :: "int \<Rightarrow> int \<Rightarrow> real \<Rightarrow> int" where
  "channel_float s e t =
     (let v = trunc_toward_zero (nearest (of_int s + nearest ((of_int e - of_int s) * t)))
      in if v < 0 then 0 else if 255 < v then 255 else v)"

subsection \<open>The random source\<close>

text \<open>
  \<open>random.randrange(k)\<close> raises ValueError for \<open>k \<le> 0\<close> and otherwise returns an integer
  of the half-open range from 0 to k. The generator is a parameter of the model: a stream
  \<open>src\<close> of raw integers and the number \<open>pos\<close> of values consumed so far; a call
  returns \<open>src pos mod k\<close>. Every sequence of results the library can return is the
  behaviour of some stream.
\<close>

definition randrange :: "(nat \<Rightarrow> int) \<Rightarrow> int \<Rightarrow> nat \<Rightarrow> error + int \<times> nat" where
  "randrange src k pos = (if k \<le> 0 then Inl ValueError else Inr (src pos mod k, Suc pos))"

subsection \<open>generate_points (lines 43-95)\<close>

text \<open>The sampling loop of lines 52-53: two draws per point, x first.\<close>

fun sample_loop ::
  "(nat \<Rightarrow> int) \<Rightarrow> nat \<Rightarrow> int \<times> int \<Rightarrow> real \<Rightarrow> point list \<Rightarrow> nat \<Rightarrow> error + point list \<times> nat" where
  "sample_loop src 0 area scale points pos = Inr (points, pos)"
| "sample_loop src (Suc k) area scale points pos =
     (case randrange src (py_int (of_int (fst area) * scale)) pos of
        Inl e \<Rightarrow> Inl e
      | Inr (rx, pos1) \<Rightarrow>
          (case randrange src (py_int (of_int (snd area) * scale)) pos1 of
             Inl e \<Rightarrow> Inl e
           | Inr (ry, pos2) \<Rightarrow>
               sample_loop src k area scale
                 (points @ [(py_int ((1 - scale) / 2 * of_int (fst area)) + rx,
                             py_int ((1 - scale) / 2 * of_int (snd area)) + ry)]) pos2))"

definition point_dist :: "point \<Rightarrow> point \<Rightarrow> real" where
  "point_dist p q = sqrt (of_int ((fst p - fst q)\<^sup>2 + (snd p - snd q)\<^sup>2))"

text \<open>
  The inner loop of lines 62-67. \<open>d\<close> is None or a float; \<open>not d\<close> holds for None and
  for 0.0. The loop is left by \<open>break\<close> at the first \<open>q\<close> equal to \<open>p\<close>.
\<close>

fun nearest_loop :: "point \<Rightarrow> point list \<Rightarrow> real option \<Rightarrow> real option" where
  "nearest_loop p [] d = d"
| "nearest_loop p (q # qs) d =
     (if q = p then d
      else let q_d = point_dist p q
           in nearest_loop p qs
                (case d of
                   None \<Rightarrow> Some q_d
                 | Some v \<Rightarrow> if v = 0 \<or> q_d < v then Some q_d else Some v))"

text \<open>The while loop of lines 77-83: insert before the first entry not below \<open>d\<close>.\<close>

fun insert_loop :: "(real \<times> point) list \<Rightarrow> real \<Rightarrow> point \<Rightarrow> (real \<times> point) list" where
  "insert_loop [] d p = []"
| "insert_loop (e # es) d p =
     (if fst e < d then e # insert_loop es d p else (d, p) # e # es)"

text \<open>Lines 71-83: the three-way insertion into sorted_points.\<close>

definition insert_sorted :: "(real \<times> point) list \<Rightarrow> real \<Rightarrow> point \<Rightarrow> (real \<times> point) list" where
  "insert_sorted sorted_points d p =
     (if sorted_points = [] then [(d, p)]
      else if d > fst (last sorted_points) then sorted_points @ [(d, p)]
      else insert_loop sorted_points d p)"

text \<open>
  The outer loop of lines 59-83 over the points still to visit; \<open>points\<close> is the whole
  candidate list, scanned by the inner loop. A point whose \<open>d\<close> is None or 0.0 is skipped.
\<close>

fun rank_loop :: "point list \<Rightarrow> point list \<Rightarrow> (real \<times> point) list \<Rightarrow> (real \<times> point) list" where
  "rank_loop points [] sorted_points = sorted_points"
| "rank_loop points (p # ps) sorted_points =
     (case nearest_loop p points None of
        None \<Rightarrow> rank_loop points ps sorted_points
      | Some d \<Rightarrow>
          if d = 0 then rank_loop points ps sorted_points
          else rank_loop points ps (insert_sorted sorted_points d p))"

text \<open>Lines 85-86: \<open>del sorted_points[0]\<close> on an empty list raises IndexError.\<close>

fun remove_loop :: "nat \<Rightarrow> 'a list \<Rightarrow> error + 'a list" where
  "remove_loop 0 sorted_points = Inr sorted_points"
| "remove_loop (Suc k) [] = Inl IndexError"
| "remove_loop (Suc k) (e # sorted_points) = remove_loop k sorted_points"

text \<open>Lines 56-88, the body of \<open>if decluster\<close>.\<close>

definition decluster_points :: "point list \<Rightarrow> int \<Rightarrow> int \<Rightarrow> error + point list" where
  "decluster_points points n_extra_points n_points =
     (case remove_loop (nat (n_extra_points - n_points)) (rank_loop points points []) of
        Inl e \<Rightarrow> Inl e
      | Inr sorted_points \<Rightarrow> Inr (map snd sorted_points))"

text \<open>Lines 91-94: the four points beyond the corners of the screen.\<close>

definition sentinels :: "int \<times> int \<Rightarrow> point list" where
  "sentinels area =
     [(-300, -10), (fst area + 10, -300), (fst area + 300, snd area + 10),
      (-100, snd area + 300)]"

definition generate_points ::
  "(nat \<Rightarrow> int) \<Rightarrow> int \<Rightarrow> int \<times> int \<Rightarrow> real \<Rightarrow> bool \<Rightarrow> nat \<Rightarrow> error + point list \<times> nat" where
  "generate_points src n_points area scale decluster pos =
     (let cluster_fraction = (if decluster then 2 else 1);
          n_extra_points = cluster_fraction * n_points
      in case sample_loop src (nat n_extra_points) area scale [] pos of
           Inl e \<Rightarrow> Inl e
         | Inr (points, pos') \<Rightarrow>
             (case (if decluster then decluster_points points n_extra_points n_points
                    else Inr points) of
                Inl e \<Rightarrow> Inl e
              | Inr points' \<Rightarrow> Inr (points' @ sentinels area, pos')))"

text \<open>
  The spec's wording of the ranking distance: the least Euclidean distance from \<open>p\<close> to
  the candidates other than \<open>p\<close>, over the whole list; None when there is no other.
\<close>

definition spec_nearest :: "point \<Rightarrow> point list \<Rightarrow> real option" where
  "spec_nearest p points =
     (let ds = map (point_dist p) (filter (\<lambda>q. q \<noteq> p) points)
      in if ds = [] then None else Some (min_list ds))"

definition inside_canvas :: "int \<times> int \<Rightarrow> point \<Rightarrow> bool" where
  "inside_canvas area p = (0 \<le> fst p \<and> fst p < fst area \<and> 0 \<le> snd p \<and> snd p < snd area)"

subsection \<open>Module constants (lines 112-151)\<close>

definition aa_amount :: int where
  "aa_amount = 4"

definition gradient :: "string \<rightharpoonup> grad" where
  "gradient = map_of
     [(''sunshine'', ((255, 248, 9), (255, 65, 9))),
      (''purples'', ((255, 9, 204), (4, 137, 232))),
      (''grass'', ((255, 232, 38), (88, 255, 38))),
      (''valentine'', ((102, 0, 85), (255, 25, 216))),
      (''sky'', ((0, 177, 255), (9, 74, 102))),
      (''ubuntu'', ((119, 41, 83), (221, 72, 20))),
      (''fedora'', ((41, 65, 114), (60, 110, 180))),
      (''debian'', ((215, 10, 83), (10, 10, 10))),
      (''opensuse'', ((151, 208, 5), (34, 120, 8)))]"

subsection \<open>Options, collaborators and the observable world\<close>

text \<open>
  The parsed command line. A value option that was not given is None; the three flags
  are True when given. \<open>n_points\<close> defaults to 100 and \<open>filename\<close> to triangles.png.
\<close>

record options =
  opt_filename :: string
  opt_n_points :: int
  opt_width :: "int option"
  opt_height :: "int option"
  opt_gradient :: "string option"
  opt_image :: "string option"
  opt_darken_amount :: "int option"
  opt_antialias :: bool
  opt_lines :: bool
  opt_decluster :: bool

text \<open>A reference image as the program reads it: its size and its pixel table.\<close>

record image =
  img_size :: "int \<times> int"
  img_pixels :: "int \<times> int \<Rightarrow> color"

text \<open>
  What the program takes from outside: the random stream, \<open>Image.open\<close> (None when the
  file cannot be read), \<open>image.save\<close> (the error it raises for a file name, if any:
  an unknown extension, a path that cannot be written), and the two functions of the
  geometry module, whose code is not part of the repository's source:
  \<open>delaunay_triangulation\<close> (None for a result that is not a list) and
  \<open>tri_centroid\<close>, which returns two finite floats.
\<close>

record env =
  random_source :: "nat \<Rightarrow> int"
  image_open :: "string \<Rightarrow> image option"
  delaunay_triangulation :: "point list \<Rightarrow> triangle list option"
  tri_centroid :: "point list \<Rightarrow> real \<times> real"
  image_save :: "string \<Rightarrow> error option"

text \<open>
  One painted polygon: vertices, fill colour, outline colour if any. A raster file is
  described by the size it is saved with, the size it was painted at and the polygons
  painted, in order.
\<close>

type_synonym painted = "point list \<times> color \<times> color option"

record raster =
  ras_size :: "int \<times> int"
  ras_painted_size :: "int \<times> int"
  ras_painted :: "painted list"

text \<open>
  The effects of a run: lines printed, random values consumed, the point sets handed
  to the triangulator (one entry per call) and the files written.
\<close>

record world =
  stdout :: "string list"
  rng_pos :: nat
  triangulated :: "point list list"
  files :: "(string \<times> raster) list"

datatype outcome = Exit int | Uncaught error

definition py_print :: "string \<Rightarrow> world \<Rightarrow> world" where
  "py_print s w = w\<lparr>stdout := stdout w @ [s]\<rparr>"

text \<open>Python truth values of the optional strings, integers and of the triangulation.\<close>

definition truthy_str :: "string option \<Rightarrow> bool" where
  "truthy_str s = (case s of None \<Rightarrow> False | Some v \<Rightarrow> v \<noteq> [])"

definition truthy_int :: "int option \<Rightarrow> bool" where
  "truthy_int i = (case i of None \<Rightarrow> False | Some v \<Rightarrow> v \<noteq> 0)"

definition truthy_tri :: "triangle list option \<Rightarrow> bool" where
  "truthy_tri t = (case t of None \<Rightarrow> False | Some v \<Rightarrow> v \<noteq> [])"

definition in_gradient :: "string option \<Rightarrow> bool" where
  "in_gradient gname = (case gname of None \<Rightarrow> False | Some g \<Rightarrow> gradient g \<noteq> None)"

text \<open>\<open>x <= 0\<close> in Python 2, where None compares below every number.\<close>

definition le_zero :: "int option \<Rightarrow> bool" where
  "le_zero x = (case x of None \<Rightarrow> True | Some v \<Rightarrow> v \<le> 0)"

subsection \<open>Validation of the colour source (lines 178-190) and canvas size (lines 193-205)\<close>

definition check_source :: "env \<Rightarrow> options \<Rightarrow> world \<Rightarrow> (outcome + image option) \<times> world" where
  "check_source env options w =
     (let gname = opt_gradient options in
      if \<not> truthy_str gname \<and> \<not> truthy_str (opt_image options) then
        (Inl (Exit 64),
         py_print ''Must select either a gradient (-g) or input image (-i). See help for details.'' w)
      else if \<not> in_gradient gname \<and> \<not> truthy_str (opt_image options) then
        (Inl (Exit 64), py_print ''Invalid gradient name'' w)
      else if truthy_str (opt_image options) then
        (let w1 = (if truthy_str (opt_gradient options)
                   then py_print ''Image supercedes gradient; gradient selection ignored'' w
                   else w)
         in case opt_image options of
              None \<Rightarrow> (Inl (Uncaught IOError), w1)
            | Some path \<Rightarrow>
                (case image_open env path of
                   None \<Rightarrow> (Inl (Uncaught IOError), w1)
                 | Some background_image \<Rightarrow> (Inr (Some background_image), w1)))
      else (Inr None, w))"

definition canvas_size ::
  "options \<Rightarrow> image option \<Rightarrow> world \<Rightarrow> (outcome + int \<times> int) \<times> world" where
  "canvas_size options background_image w =
     (if truthy_str (opt_image options) then
        (let w1 = (if truthy_int (opt_width options) \<or> truthy_int (opt_height options)
                   then py_print ''Image dimensions supercede specified width and height'' w
                   else w)
         in case background_image of
              None \<Rightarrow> (Inl (Uncaught NameError), w1)
            | Some img \<Rightarrow> (Inr (img_size img), w1))
      else if le_zero (opt_width options) \<or> le_zero (opt_height options) then
        (Inl (Exit 64), py_print ''Width and height must be greater than zero.'' w)
      else
        (case (opt_width options, opt_height options) of
           (Some wd, Some ht) \<Rightarrow> (Inr (wd, ht), w)
         | _ \<Rightarrow> (Inl (Exit 64), py_print ''Width and height must be greater than zero.'' w)))"

subsection \<open>Colour assignment (lines 225-248)\<close>

text \<open>Pixel access outside the image raises IndexError.\<close>

definition load_pixel :: "image \<Rightarrow> int \<times> int \<Rightarrow> error + color" where
  "load_pixel img xy =
     (if 0 \<le> fst xy \<and> fst xy < fst (img_size img) \<and> 0 \<le> snd xy \<and> snd xy < snd (img_size img)
      then Inr (img_pixels img xy) else Inl IndexError)"

text \<open>Lines 234-237: the centroid clamped to the image and truncated.\<close>

definition int_centroid :: "real \<times> real \<Rightarrow> int \<times> int \<Rightarrow> int \<times> int" where
  "int_centroid centroid sz =
     (py_int (min (max (fst centroid) 0) (of_int (fst sz - 1))),
      py_int (min (max (snd centroid) 0) (of_int (snd sz - 1))))"

fun image_loop ::
  "env \<Rightarrow> image \<Rightarrow> int \<times> int \<Rightarrow> triangle list \<Rightarrow> color list \<Rightarrow> error + color list" where
  "image_loop env img sz [] colors = Inr colors"
| "image_loop env img sz (t # ts) colors =
     (let centroid = tri_centroid env t
      in case load_pixel img (int_centroid centroid sz) of
           Inl e \<Rightarrow> Inl e
         | Inr c \<Rightarrow> image_loop env img sz ts (colors @ [c]))"

text \<open>Line 247, the numerator: \<open>sqrt(c[0]**2+c[1]**2)\<close> on the two floats of a centroid.\<close>

definition centroid_norm :: "real \<times> real \<Rightarrow> error + pyfloat" where
  "centroid_norm c =
     ebind (fpow2 (Fin (fst c))) (\<lambda>x2.
     ebind (fpow2 (Fin (snd c))) (\<lambda>y2.
     fsqrt (fadd x2 y2)))"

text \<open>Lines 244-248; \<open>s\<close> is the length of the canvas diagonal.\<close>

fun gradient_loop ::
  "env \<Rightarrow> string option \<Rightarrow> pyfloat \<Rightarrow> triangle list \<Rightarrow> color list \<Rightarrow> error + color list" where
  "gradient_loop env gname s [] colors = Inr colors"
| "gradient_loop env gname s (t # ts) colors =
     (let c = tri_centroid env t
      in ebind (centroid_norm c) (\<lambda>n.
         ebind (fdiv n s) (\<lambda>frac.
           case gname of
             None \<Rightarrow> Inl KeyError
           | Some g \<Rightarrow>
               (case gradient g of
                  None \<Rightarrow> Inl KeyError
                | Some grad \<Rightarrow>
                    ebind (calculate_color grad frac) (\<lambda>col.
                    gradient_loop env gname s ts (colors @ [col]))))))"

text \<open>Line 243: \<open>sqrt(size[0]**2+size[1]**2)\<close>, the square root of an integer.\<close>

definition diagonal :: "int \<times> int \<Rightarrow> error + pyfloat" where
  "diagonal sz = ebind (float_of_int ((fst sz)\<^sup>2 + (snd sz)\<^sup>2)) fsqrt"

definition assign_colors ::
  "env \<Rightarrow> options \<Rightarrow> image option \<Rightarrow> int \<times> int \<Rightarrow> triangle list \<Rightarrow> triangle list
     \<Rightarrow> error + color list" where
  "assign_colors env options background_image sz triangulation trans_triangulation =
     (if truthy_str (opt_image options) then
        (case background_image of
           None \<Rightarrow> Inl NameError
         | Some img \<Rightarrow> image_loop env img sz trans_triangulation [])
      else ebind (diagonal sz) (\<lambda>s.
             gradient_loop env (opt_gradient options) s triangulation []))"

subsection \<open>Darkening (lines 250-256)\<close>

definition darkened :: "color \<Rightarrow> int \<Rightarrow> color" where
  "darkened c d = (max (fst c - d) 0, max (fst (snd c) - d) 0, max (snd (snd c) - d) 0)"

text \<open>The loop over the indices of \<open>colors\<close>: one draw per colour, stored back in place.\<close>

fun darken_loop ::
  "(nat \<Rightarrow> int) \<Rightarrow> int \<Rightarrow> color list \<Rightarrow> nat \<Rightarrow> nat \<Rightarrow> nat \<Rightarrow> error + color list \<times> nat" where
  "darken_loop src amount colors i 0 pos = Inr (colors, pos)"
| "darken_loop src amount colors i (Suc k) pos =
     (case randrange src amount pos of
        Inl e \<Rightarrow> Inl e
      | Inr (d, pos') \<Rightarrow>
          darken_loop src amount (colors[i := darkened (colors ! i) d]) (Suc i) k pos')"

definition darken_colors ::
  "(nat \<Rightarrow> int) \<Rightarrow> int option \<Rightarrow> color list \<Rightarrow> nat \<Rightarrow> error + color list \<times> nat" where
  "darken_colors src darken_amount colors pos =
     (case darken_amount of
        None \<Rightarrow> Inr (colors, pos)
      | Some amount \<Rightarrow>
          if amount = 0 then Inr (colors, pos)
          else darken_loop src amount colors 0 (length colors) pos)"

subsection \<open>draw_polys (lines 103-109) and the rest of the script (lines 208-278)\<close>

fun draw_loop ::
  "nat \<Rightarrow> nat \<Rightarrow> color list \<Rightarrow> point list list \<Rightarrow> color option \<Rightarrow> painted list
     \<Rightarrow> error + painted list" where
  "draw_loop i 0 colors polys outline draw = Inr draw"
| "draw_loop i (Suc k) colors polys outline draw =
     (if i < length colors
      then draw_loop (Suc i) k colors polys outline (draw @ [(polys ! i, colors ! i, outline)])
      else Inl IndexError)"

definition draw_polys ::
  "painted list \<Rightarrow> color list \<Rightarrow> point list list \<Rightarrow> bool \<Rightarrow> color \<Rightarrow> error + painted list" where
  "draw_polys draw colors polys draw_outlines outline_color =
     (if draw_outlines then draw_loop 0 (length polys) colors polys (Some outline_color) draw
      else draw_loop 0 (length polys) colors polys None draw)"

text \<open>Lines 220-278: everything after a triangulation was found.\<close>

definition render ::
  "env \<Rightarrow> options \<Rightarrow> image option \<Rightarrow> int \<times> int \<Rightarrow> triangle list \<Rightarrow> world \<Rightarrow> outcome \<times> world" where
  "render env options background_image sz triangulation w =
     (let trans_triangulation = map (\<lambda>t. cart_to_screen t sz) triangulation
      in case assign_colors env options background_image sz triangulation trans_triangulation of
           Inl e \<Rightarrow> (Uncaught e, w)
         | Inr colors \<Rightarrow>
             (case darken_colors (random_source env) (opt_darken_amount options) colors (rng_pos w) of
                Inl e \<Rightarrow> (Uncaught e, w)
              | Inr (colors', pos) \<Rightarrow>
                  (let w1 = w\<lparr>rng_pos := pos\<rparr>;
                       sz' = (if opt_antialias options
                              then (fst sz * aa_amount, snd sz * aa_amount) else sz);
                       trans' = (if opt_antialias options
                                 then map (map (\<lambda>v. (fst v * aa_amount, snd v * aa_amount)))
                                        trans_triangulation
                                 else trans_triangulation)
                   in case draw_polys [] colors' trans' (opt_lines options) (255, 255, 255) of
                        Inl e \<Rightarrow> (Uncaught e, w1)
                      | Inr drawn \<Rightarrow>
                          (let out_size = (if opt_antialias options
                                           then (fst sz' div aa_amount, snd sz' div aa_amount)
                                           else sz');
                               file = \<lparr>ras_size = out_size, ras_painted_size = sz',
                                       ras_painted = drawn\<rparr>
                           in case image_save env (opt_filename options) of
                                Some e \<Rightarrow> (Uncaught e, w1)
                              | None \<Rightarrow>
                                  (Exit 0,
                                   py_print (''Image saved to '' @ opt_filename options)
                                     (w1\<lparr>files :=
                                          files w1 @ [(opt_filename options, file)]\<rparr>))))))"

text \<open>The script from line 175 on; the scale of the sampled region is the constant 1.25.\<close>

definition main :: "env \<Rightarrow> options \<Rightarrow> world \<Rightarrow> outcome \<times> world" where
  "main env options w =
     (case check_source env options w of
        (Inl out, w1) \<Rightarrow> (out, w1)
      | (Inr background_image, w1) \<Rightarrow>
          (case canvas_size options background_image w1 of
             (Inl out, w2) \<Rightarrow> (out, w2)
           | (Inr sz, w2) \<Rightarrow>
               (case generate_points (random_source env) (opt_n_points options) sz (5 / 4)
                       (opt_decluster options) (rng_pos w2) of
                  Inl e \<Rightarrow> (Uncaught e, w2)
                | Inr (points, pos) \<Rightarrow>
                    (let w3 = w2\<lparr>rng_pos := pos, triangulated := triangulated w2 @ [points]\<rparr>
                     in case delaunay_triangulation env points of
                          None \<Rightarrow> (Exit 1, py_print ''Failed to find a triangulation.'' w3)
                        | Some triangulation \<Rightarrow>
                            if triangulation = []
                            then (Exit 1, py_print ''Failed to find a triangulation.'' w3)
                            else render env options background_image sz triangulation w3))))"

text \<open>The fill colours of a written raster, in painting order.\<close>

definition fills :: "raster \<Rightarrow> color list" where
  "fills r = map (\<lambda>q. fst (snd q)) (ras_painted r)"



text \<open>
  The spec's wording of the image-mode sampling coordinate: the centroid coordinate
  clamped to 0..dimension-1, as an integer.
\<close>

definition spec_clamp :: "real \<Rightarrow> int \<Rightarrow> int" where
  "spec_clamp c n = (if c < 0 then 0 else if of_int (n - 1) < c then n - 1 else \<lfloor>c\<rfloor>)"

definition spec_sample :: "image \<Rightarrow> real \<times> real \<Rightarrow> color" where
  "spec_sample img c =
     img_pixels img (spec_clamp (fst c) (fst (img_size img)), spec_clamp (snd c) (snd (img_size img)))"

subsection \<open>A concrete run\<close>

text \<open>
  Collaborators and options used to evaluate the script on concrete inputs: a linear
  random stream, one readable image file of a single pixel, a stand-in triangulator that
  returns two triangles over the first four points, and the vertex mean as centroid.
\<close>

definition example_image :: image where
  "example_image = \<lparr>img_size = (1, 1), img_pixels = (\<lambda>xy. (10, 20, 30))\<rparr>"

definition example_env :: env where
  "example_env =
     \<lparr>random_source = (\<lambda>i. 40 + 17 * int i),
      image_open = (\<lambda>path. if path = ''pixel.png'' then Some example_image else None),
      delaunay_triangulation =
        (\<lambda>ps. if length ps < 4 then None else Some [take 3 ps, take 3 (drop 1 ps)]),
      tri_centroid =
        (\<lambda>t. (of_int (sum_list (map fst t)) / 3, of_int (sum_list (map snd t)) / 3)),
      image_save = (\<lambda>name. None)\<rparr>"

definition example_options :: options where
  "example_options =
     \<lparr>opt_filename = ''triangles.png'', opt_n_points = 1,
      opt_width = Some 100, opt_height = Some 100,
      opt_gradient = Some ''sunshine'', opt_image = None, opt_darken_amount = None,
      opt_antialias = False, opt_lines = False, opt_decluster = False\<rparr>"

definition world0 :: world where
  "world0 = \<lparr>stdout = [], rng_pos = 0, triangulated = [], files = []\<rparr>"

text \<open>
  A second setting: a 4 by 3 photo whose pixel at (x, y) is (10 x, 20 y, 30), a
  stand-in triangulator that returns two fixed triangles with centroids (1280, 720) and
  (2, 2), and a save that accepts only the extension png.
\<close>

definition photo_image :: image where
  "photo_image = \<lparr>img_size = (4, 3), img_pixels = (\<lambda>xy. (10 * fst xy, 20 * snd xy, 30))\<rparr>"

definition photo_env :: env where
  "photo_env =
     \<lparr>random_source = (\<lambda>i. 40 + 17 * int i),
      image_open = (\<lambda>path. if path = ''photo.png'' then Some photo_image
                          else if path = ''pixel.png'' then Some example_image else None),
      delaunay_triangulation =
        (\<lambda>ps. if length ps < 4 then None
              else Some [[(1000, 700), (1400, 720), (1440, 740)], [(1, 1), (2, 2), (3, 3)]]),
      tri_centroid =
        (\<lambda>t. (of_int (sum_list (map fst t)) / 3, of_int (sum_list (map snd t)) / 3)),
      image_save = (\<lambda>name. if drop (length name - 4) name = ''.png'' then None
                          else Some KeyError)\<rparr>"

definition photo_options :: options where
  "photo_options =
     \<lparr>opt_filename = ''triangles.png'', opt_n_points = 1,
      opt_width = None, opt_height = None,
      opt_gradient = Some ''sunshine'', opt_image = Some ''photo.png'',
      opt_darken_amount = None,
      opt_antialias = False, opt_lines = False, opt_decluster = False\<rparr>"

section \<open>Coordinate flip\<close>

lemma cart_loop_map:
  "cart_loop ps sz acc = acc @ map (\<lambda>p. (fst p, snd sz - snd p)) ps"
  by (induction ps arbitrary: acc) simp_all

lemma cart_to_screen_map:
  "cart_to_screen ps sz = map (\<lambda>p. (fst p, snd sz - snd p)) ps"
  by (simp add: cart_to_screen_def cart_loop_map)

text \<open>
  Claim C7. The Cartesian-to-screen flip is involutive: for every list of points and
  every canvas size, applying cart_to_screen twice with the same size gives back the
  original list.
\<close>

theorem cart_to_screen_involutive:
  "cart_to_screen (cart_to_screen points sz) sz = points"
  by (simp add: cart_to_screen_map o_def)

theorem cart_to_screen_involutive_witness:
  "cart_to_screen (cart_to_screen [(3, 7), (-300, -10)] (100, 50)) (100, 50)
     = [(3, 7), (-300, -10)]
   \<and> cart_to_screen [(3, 7), (-300, -10)] (100, 50) = [(3, 43), (-300, 60)]"
  using cart_to_screen_involutive [of "[(3, 7), (-300, -10)]" "(100, 50)"]
  by (simp add: cart_to_screen_def)

section \<open>Darkening\<close>

lemma randrange_ok: "0 < k \<Longrightarrow> randrange src k pos = Inr (src pos mod k, Suc pos)"
  by (simp add: randrange_def)

lemma darken_loop_closed:
  assumes "0 < amount"
  shows "i + k \<le> length colors \<Longrightarrow>
     \<exists>cs. darken_loop src amount colors i k pos = Inr (cs, pos + k)
        \<and> length cs = length colors
        \<and> (\<forall>j < length colors. cs ! j =
              (if i \<le> j \<and> j < i + k
               then darkened (colors ! j) (src (pos + (j - i)) mod amount)
               else colors ! j))"
proof (induction k arbitrary: colors i pos)
  case 0
  then show ?case by auto
next
  case (Suc k)
  let ?colors1 = "colors[i := darkened (colors ! i) (src pos mod amount)]"
  have step: "darken_loop src amount colors i (Suc k) pos
      = darken_loop src amount ?colors1 (Suc i) k (Suc pos)"
    using assms by (simp add: randrange_ok)
  have "Suc i + k \<le> length ?colors1" using Suc.prems by simp
  from Suc.IH[OF this, of "Suc pos"] obtain cs where
    cs: "darken_loop src amount ?colors1 (Suc i) k (Suc pos) = Inr (cs, Suc pos + k)"
      "length cs = length ?colors1"
      "\<forall>j < length ?colors1. cs ! j =
              (if Suc i \<le> j \<and> j < Suc i + k
               then darkened (?colors1 ! j) (src (Suc pos + (j - Suc i)) mod amount)
               else ?colors1 ! j)"
    by blast
  have "\<forall>j < length colors. cs ! j =
              (if i \<le> j \<and> j < i + Suc k
               then darkened (colors ! j) (src (pos + (j - i)) mod amount)
               else colors ! j)"
  proof (intro allI impI)
    fix j assume j: "j < length colors"
    show "cs ! j = (if i \<le> j \<and> j < i + Suc k
               then darkened (colors ! j) (src (pos + (j - i)) mod amount)
               else colors ! j)"
    proof (cases "j = i")
      case True
      then show ?thesis using cs(3) j by simp
    next
      case False
      have "Suc i \<le> j \<Longrightarrow> Suc pos + (j - Suc i) = pos + (j - i)" by simp
      then show ?thesis using cs(3) j False by (auto simp: nth_list_update)
    qed
  qed
  then show ?case using cs(1,2) step by simp
qed

lemma darkened_channels:
  "darkened (r, g, b) d =
     ((if d \<le> r then r - d else 0), (if d \<le> g then g - d else 0), (if d \<le> b then b - d else 0))"
  by (simp add: darkened_def max_def)

lemma darkened_ok: "color_ok c \<Longrightarrow> 0 \<le> d \<Longrightarrow> color_ok (darkened c d)"
  by (auto simp: color_ok_def darkened_def)

text \<open>
  Claim C6. For colours with channels in 0..255 and a darken amount above zero, the
  darkening step draws for each colour one magnitude d with 0 \<le> d < amount (one value of
  the random source per colour) and subtracts that same d from all three channels,
  clamping at 0; no darkened channel is negative.
\<close>

theorem darken_never_negative:
  assumes "0 < amount" and "\<forall>c \<in> set colors. color_ok c"
  shows "\<exists>cs. darken_colors src (Some amount) colors pos = Inr (cs, pos + length colors)
           \<and> length cs = length colors
           \<and> (\<forall>j < length colors.
                 \<exists>d. d = src (pos + j) mod amount \<and> 0 \<le> d \<and> d < amount
                   \<and> fst (cs ! j) = (if d \<le> fst (colors ! j) then fst (colors ! j) - d else 0)
                   \<and> fst (snd (cs ! j))
                       = (if d \<le> fst (snd (colors ! j)) then fst (snd (colors ! j)) - d else 0)
                   \<and> snd (snd (cs ! j))
                       = (if d \<le> snd (snd (colors ! j)) then snd (snd (colors ! j)) - d else 0)
                   \<and> color_ok (cs ! j))"
proof -
  from darken_loop_closed[OF assms(1), of 0 "length colors" colors src pos]
  obtain cs where cs: "darken_loop src amount colors 0 (length colors) pos = Inr (cs, pos + length colors)"
    "length cs = length colors"
    "\<forall>j < length colors. cs ! j = darkened (colors ! j) (src (pos + j) mod amount)"
    by auto
  have run: "darken_colors src (Some amount) colors pos = Inr (cs, pos + length colors)"
    using assms(1) cs(1) by (simp add: darken_colors_def)
  have "\<forall>j < length colors.
          \<exists>d. d = src (pos + j) mod amount \<and> 0 \<le> d \<and> d < amount
            \<and> fst (cs ! j) = (if d \<le> fst (colors ! j) then fst (colors ! j) - d else 0)
            \<and> fst (snd (cs ! j))
                = (if d \<le> fst (snd (colors ! j)) then fst (snd (colors ! j)) - d else 0)
            \<and> snd (snd (cs ! j))
                = (if d \<le> snd (snd (colors ! j)) then snd (snd (colors ! j)) - d else 0)
            \<and> color_ok (cs ! j)"
  proof (intro allI impI)
    fix j assume j: "j < length colors"
    let ?d = "src (pos + j) mod amount"
    have d: "0 \<le> ?d" "?d < amount" using assms(1) by simp_all
    have ok: "color_ok (colors ! j)" using assms(2) j by simp
    obtain r g b where c: "colors ! j = (r, g, b)" by (cases "colors ! j") auto
    have "cs ! j = darkened (r, g, b) ?d" using cs(3) j c by simp
    then show "\<exists>d. d = ?d \<and> 0 \<le> d \<and> d < amount
            \<and> fst (cs ! j) = (if d \<le> fst (colors ! j) then fst (colors ! j) - d else 0)
            \<and> fst (snd (cs ! j))
                = (if d \<le> fst (snd (colors ! j)) then fst (snd (colors ! j)) - d else 0)
            \<and> snd (snd (cs ! j))
                = (if d \<le> snd (snd (colors ! j)) then snd (snd (colors ! j)) - d else 0)
            \<and> color_ok (cs ! j)"
      using d ok c darkened_ok[of "(r, g, b)" ?d] by (simp add: darkened_channels)
  qed
  with run cs(2) show ?thesis by blast
qed

theorem darken_never_negative_witness:
  "(0::int) < 50 \<and> color_ok (10, 20, 30) \<and> color_ok (255, 0, 100)
   \<and> darken_colors (\<lambda>i. 25 + 100 * int i) (Some 50) [(10, 20, 30), (255, 0, 100)] 7
       = Inr ([(0, 0, 5), (230, 0, 75)], 9)"
  using darken_never_negative [of 50 "[(10, 20, 30), (255, 0, 100)]" "\<lambda>i. 25 + 100 * int i" 7]
  by (simp add: color_ok_def darken_colors_def randrange_def darkened_def numeral_eq_Suc)

section \<open>Point generation and declustering\<close>

lemma sample_loop_length:
  "sample_loop src k area scale points pos = Inr (ps, pos') \<Longrightarrow>
     length ps = length points + k \<and> pos' = pos + 2 * k"
proof (induction k arbitrary: points pos)
  case 0
  then show ?case by simp
next
  case (Suc k)
  from Suc.prems obtain pt where
    "sample_loop src k area scale (points @ [pt]) (Suc (Suc pos)) = Inr (ps, pos')"
    by (auto simp: randrange_def split: if_splits)
  from Suc.IH[OF this] show ?case by simp
qed

lemma sample_loop_ok:
  assumes "0 < py_int (of_int (fst area) * scale)" and "0 < py_int (of_int (snd area) * scale)"
  shows "\<exists>ps. sample_loop src k area scale points pos = Inr (ps, pos + 2 * k)"
proof (induction k arbitrary: points pos)
  case 0
  show ?case by simp
next
  case (Suc k)
  obtain pt where step: "sample_loop src (Suc k) area scale points pos
       = sample_loop src k area scale (points @ [pt]) (Suc (Suc pos))"
    using assms by (simp add: randrange_def)
  from Suc.IH[of "points @ [pt]" "Suc (Suc pos)"] show ?case
    unfolding step by simp
qed

lemma py_int_scaled_pos:
  assumes "0 < (w::int)" and "1 \<le> scale"
  shows "0 < py_int (of_int w * scale)"
proof -
  have "1 * 1 \<le> real_of_int w * scale"
    using assms by (intro mult_mono) simp_all
  then have "1 \<le> real_of_int w * scale" by simp
  then have "1 \<le> \<lfloor>real_of_int w * scale\<rfloor>" by (simp add: le_floor_iff)
  moreover have "0 \<le> real_of_int w * scale" using \<open>1 \<le> real_of_int w * scale\<close> by simp
  ultimately show ?thesis by (simp add: py_int_def)
qed

lemma insert_loop_length: "length (insert_loop es d p) \<le> Suc (length es)"
  by (induction es) auto

lemma insert_sorted_length: "length (insert_sorted es d p) \<le> Suc (length es)"
  using insert_loop_length[of es d p] by (auto simp: insert_sorted_def)

lemma rank_loop_length: "length (rank_loop points ps sp) \<le> length sp + length ps"
proof (induction ps arbitrary: sp)
  case Nil
  then show ?case by simp
next
  case (Cons p ps)
  show ?case
  proof (cases "nearest_loop p points None")
    case None
    then show ?thesis using Cons.IH[of sp] by simp
  next
    case (Some d)
    then show ?thesis
      using Cons.IH[of sp] Cons.IH[of "insert_sorted sp d p"] insert_sorted_length[of sp d p]
      by (cases "d = 0") auto
  qed
qed

text \<open>The scan for the first candidate stops at once: it is never ranked.\<close>

lemma rank_loop_drops_first:
  "points \<noteq> [] \<Longrightarrow> Suc (length (rank_loop points points [])) \<le> length points"
  using rank_loop_length[of points "tl points" "[]"] by (cases points) auto

lemma nearest_loop_prefix:
  "nearest_loop p points d = nearest_loop p (takeWhile (\<lambda>q. q \<noteq> p) points) d"
  by (induction points arbitrary: d) (simp_all add: Let_def)

lemma remove_loop_length: "remove_loop k xs = Inr ys \<Longrightarrow> length ys + k = length xs"
  by (induction k xs rule: remove_loop.induct) auto

lemma generate_points_plain_length:
  assumes "0 < fst area" and "0 < snd area" and "1 \<le> scale"
  shows "\<exists>ps. generate_points src n area scale False pos = Inr (ps, pos + 2 * nat n)
           \<and> length ps = nat n + 4"
proof -
  from sample_loop_ok[OF py_int_scaled_pos[OF assms(1,3)] py_int_scaled_pos[OF assms(2,3)]]
  obtain ps where ps: "sample_loop src (nat n) area scale [] pos = Inr (ps, pos + 2 * nat n)"
    by blast
  from sample_loop_length[OF this] have "length ps = nat n" by simp
  then show ?thesis using ps by (simp add: generate_points_def sentinels_def)
qed

lemma generate_points_decluster_length:
  assumes "1 \<le> n" and "generate_points src n area scale True pos = Inr (ps, pos')"
  shows "length ps \<le> nat n + 3"
proof -
  from assms(2) obtain cands sp where
    cands: "sample_loop src (nat (2 * n)) area scale [] pos = Inr (cands, pos')"
    and sp: "remove_loop (nat (2 * n - n)) (rank_loop cands cands []) = Inr sp"
    and ps: "ps = map snd sp @ sentinels area"
    by (auto simp: generate_points_def decluster_points_def Let_def split: sum.splits)
  from sample_loop_length[OF cands] have len: "length cands = nat (2 * n)" by simp
  then have "cands \<noteq> []" using assms(1) by auto
  from rank_loop_drops_first[OF this] len
  have "Suc (length (rank_loop cands cands [])) \<le> nat (2 * n)" by simp
  moreover from remove_loop_length[OF sp]
  have "length sp + nat n = length (rank_loop cands cands [])" by simp
  ultimately have "Suc (length sp) \<le> nat n" using assms(1) by linarith
  then show ?thesis using ps by (simp add: sentinels_def)
qed

lemma generate_points_sentinels:
  assumes "generate_points src n area scale dc pos = Inr (ps, pos')"
  shows "drop (length ps - 4) ps = sentinels area"
proof -
  from assms obtain qs where "ps = qs @ sentinels area"
    by (auto simp: generate_points_def Let_def split: sum.splits if_splits)
  then show ?thesis by (simp add: sentinels_def)
qed

lemma sentinels_outside: "\<forall>s \<in> set (sentinels area). \<not> inside_canvas area s"
  by (simp add: sentinels_def inside_canvas_def)

lemma sqrt_values: "sqrt 100 = 10" "sqrt 81 = 9" "sqrt 1600 = 40" "sqrt 2401 = 49" "sqrt 2500 = 50"
  by (simp_all add: real_sqrt_unique)

text \<open>
  Claim C1 says that the ranking distance of a candidate is its least Euclidean distance
  to any other candidate of the whole list, and that a point goes unranked only when
  the input is a single point. The scan of lines 62-67 leaves the loop at the first entry
  equal to the point, so only the candidates before it are measured. For the four
  candidates (0,0), (10,0), (1,0), (50,0), drawn on a 100 by 100 canvas, the code ranks
  (10,0) by the distance 10 although (1,0) is at distance 9, and does not rank (0,0) at
  all although its nearest neighbour is at distance 1.
\<close>

theorem nearest_loop_break_example:
  "sample_loop (\<lambda>i. [12, 12, 22, 12, 13, 12, 62, 12] ! i) 4 (100, 100) (5 / 4) [] 0
     = Inr ([(0, 0), (10, 0), (1, 0), (50, 0)], 8)
   \<and> nearest_loop (10, 0) [(0, 0), (10, 0), (1, 0), (50, 0)] None = Some 10
   \<and> spec_nearest (10, 0) [(0, 0), (10, 0), (1, 0), (50, 0)] = Some 9
   \<and> nearest_loop (0, 0) [(0, 0), (10, 0), (1, 0), (50, 0)] None = None
   \<and> spec_nearest (0, 0) [(0, 0), (10, 0), (1, 0), (50, 0)] = Some 1
   \<and> rank_loop [(0, 0), (10, 0), (1, 0), (50, 0)] [(0, 0), (10, 0), (1, 0), (50, 0)] []
       = [(1, (1, 0)), (10, (10, 0)), (40, (50, 0))]"
  by (simp add: generate_points_def py_int_def randrange_def numeral_eq_Suc point_dist_def
      spec_nearest_def insert_sorted_def sqrt_values)

text \<open>
  Claim C2 says that generate_points returns exactly n + 4 points, also after the
  decluster filter. With n = 2 on a 100 by 100 canvas and the four candidates (0,0),
  (10,0), (1,0), (50,0) the filter keeps one point, so five points are returned and not six; with n = 1 and
  two equal candidates nothing is ranked and the deletion of line 86 raises IndexError.
  The lemmas above give the general picture: without declustering the result has
  n + 4 points, with declustering at most n + 3, and the four sentinels always end the
  list and lie outside the canvas.
\<close>

theorem generate_points_decluster_example:
  "generate_points (\<lambda>i. [12, 12, 22, 12, 13, 12, 62, 12] ! i) 2 (100, 100) (5 / 4) True 0
     = Inr ((50, 0) # sentinels (100, 100), 8)
   \<and> length ((50, 0) # sentinels (100, 100)) \<noteq> 2 + 4
   \<and> generate_points (\<lambda>i. 0) 1 (100, 100) (5 / 4) True 0 = Inl IndexError"
  by (simp add: generate_points_def py_int_def randrange_def numeral_eq_Suc point_dist_def
      decluster_points_def insert_sorted_def sqrt_values sentinels_def)

section \<open>Float rounding\<close>

text \<open>
  Facts about rounding to the nearest float: the rounding error, the floats that are
  integers, overflow, and the finiteness of a rounding of moderate size.
\<close>

lemma round_even_err: "\<bar>of_int (round_even y) - y\<bar> \<le> 1 / 2"
  unfolding round_even_def Let_def by (auto; linarith)

lemma round_even_unique:
  assumes "\<bar>y - of_int n\<bar> < 1 / 2"
  shows "round_even y = n"
proof -
  have "\<bar>of_int (round_even y) - (of_int n :: real)\<bar> < 1"
    using round_even_err[of y] assms by linarith
  then have "\<bar>of_int (round_even y - n) :: real\<bar> < 1" by simp
  then have "\<bar>round_even y - n\<bar> < 1" by linarith
  then show ?thesis by simp
qed

lemma round_even_of_int: "round_even (of_int m) = m"
  by (rule round_even_unique) simp

lemma ulp_pos: "0 < ulp x"
  by (simp add: ulp_def)

lemma powr_two_powi: "(2::real) powr (real_of_int k) = 2 powi k"
  by (rule powr_real_of_int') simp_all

lemma floor_log_two_iff:
  assumes "0 < a"
  shows "\<lfloor>log 2 a\<rfloor> = e \<longleftrightarrow> 2 powi e \<le> a \<and> a < 2 powi (e + 1)"
proof -
  have "real_of_int e + 1 = real_of_int (e + 1)" by simp
  then have "(2::real) powr (real_of_int e + 1) = 2 powi (e + 1)"
    by (simp only: powr_two_powi)
  with floor_log_eq_powr_iff[OF assms, of 2 e] show ?thesis
    by (simp only: powr_two_powi)
qed

lemma powi_floor_log:
  assumes "x \<noteq> 0"
  shows "2 powi \<lfloor>log 2 \<bar>x\<bar>\<rfloor> \<le> \<bar>x\<bar> \<and> \<bar>x\<bar> < 2 powi (\<lfloor>log 2 \<bar>x\<bar>\<rfloor> + 1)"
proof -
  have pos: "0 < \<bar>x\<bar>" using assms by simp
  show ?thesis using floor_log_two_iff[OF pos, of "\<lfloor>log 2 \<bar>x\<bar>\<rfloor>"] by simp
qed

lemma floor_log_eqI:
  assumes "2 powi e \<le> \<bar>x\<bar>" and "\<bar>x\<bar> < 2 powi (e + 1)"
  shows "\<lfloor>log 2 \<bar>x\<bar>\<rfloor> = e"
proof -
  have "0 < (2::real) powi e" by simp
  then have pos: "0 < \<bar>x\<bar>" using assms(1) by linarith
  show ?thesis using floor_log_two_iff[OF pos, of e] assms by simp
qed

lemma binade_eqI:
  assumes "2 powi e \<le> \<bar>x\<bar>" and "\<bar>x\<bar> < 2 powi (e + 1)" and "- 1022 \<le> e"
  shows "binade x = e"
  using floor_log_eqI[OF assms(1,2)] assms(3) by (simp add: binade_def)


lemma fl_nearest:
  assumes "x \<noteq> 0" and "binade x = e"
    and "\<bar>x / 2 powi (e - 52) - of_int n\<bar> < 1 / 2"
    and "\<bar>of_int n * 2 powi (e - 52)\<bar> < (2::real) ^ 1024"
  shows "fl x = Fin (of_int n * 2 powi (e - 52))"
proof -
  have "round_even (x / ulp x) = n"
    using assms(3) by (intro round_even_unique) (simp add: ulp_def assms(2))
  then show ?thesis using assms(1,2,4) by (simp add: fl_def ulp_def Let_def)
qed

lemma fl_of_int:
  assumes "\<bar>k\<bar> < 2 ^ 53"
  shows "fl (of_int k) = Fin (of_int k)"
proof (cases "k = 0")
  case True
  then show ?thesis by (simp add: fl_def)
next
  case False
  let ?x = "real_of_int k"
  let ?e = "\<lfloor>log 2 \<bar>?x\<bar>\<rfloor>"
  have x: "?x \<noteq> 0" using False by simp
  have b: "2 powi ?e \<le> \<bar>?x\<bar>" "\<bar>?x\<bar> < 2 powi (?e + 1)"
    using powi_floor_log[OF x] by simp_all
  have "1 \<le> \<bar>?x\<bar>" using False by (simp flip: of_int_abs add: int_one_le_iff_zero_less)
  then have "(2::real) powi 0 \<le> \<bar>?x\<bar>" by simp
  then have "(2::real) powi 0 < 2 powi (?e + 1)" using b(2) by linarith
  then have e0: "0 \<le> ?e"
  proof -
    assume lt: "(2::real) powi 0 < 2 powi (?e + 1)"
    show ?thesis
    proof (rule ccontr)
      assume "\<not> 0 \<le> ?e"
      then have "?e + 1 \<le> 0" by linarith
      then have "(2::real) powi (?e + 1) \<le> 2 powi 0" by (intro power_int_increasing) simp_all
      with lt show False by linarith
    qed
  qed
  have "\<bar>?x\<bar> < 2 powi 53" using assms by (simp flip: of_int_abs)
  then have "(2::real) powi ?e < 2 powi 53" using b(1) by linarith
  then have e52: "?e \<le> 52"
  proof -
    assume lt: "(2::real) powi ?e < 2 powi 53"
    show ?thesis
    proof (rule ccontr)
      assume "\<not> ?e \<le> 52"
      then have "53 \<le> ?e" by linarith
      then have "(2::real) powi 53 \<le> 2 powi ?e" by (intro power_int_increasing) simp_all
      with lt show False by linarith
    qed
  qed
  have bin: "binade ?x = ?e" using e0 by (simp add: binade_def)
  define m where "m = nat (52 - ?e)"
  have q: "(2::real) powi (?e - 52) = 1 / 2 ^ m"
  proof -
    have "?e - 52 = - int m" using e52 by (simp add: m_def)
    then show ?thesis by (simp add: power_int_minus_divide)
  qed
  have dv: "?x / 2 powi (?e - 52) = of_int (k * 2 ^ m)" by (simp add: q)
  have bk: "of_int (k * 2 ^ m) * (2::real) powi (?e - 52) = ?x" by (simp add: q)
  have "fl ?x = Fin (of_int (k * 2 ^ m) * 2 powi (?e - 52))"
  proof (rule fl_nearest[OF x bin])
    show "\<bar>?x / 2 powi (?e - 52) - of_int (k * 2 ^ m)\<bar> < 1 / 2"
      by (simp add: dv)
    have "\<bar>?x\<bar> < 2 ^ 53" using assms by (simp flip: of_int_abs)
    also have "\<dots> < (2::real) ^ 1024" by simp
    finally show "\<bar>of_int (k * 2 ^ m) * 2 powi (?e - 52)\<bar> < (2::real) ^ 1024"
      by (simp only: bk)
  qed
  then show ?thesis by (simp only: bk)
qed

lemma ulp_le:
  assumes "x \<noteq> 0"
  shows "ulp x \<le> \<bar>x\<bar> / 2 ^ 52 \<or> ulp x = 1 / 2 ^ 1074"
proof (cases "- 1022 \<le> \<lfloor>log 2 \<bar>x\<bar>\<rfloor>")
  case True
  then have "binade x = \<lfloor>log 2 \<bar>x\<bar>\<rfloor>" by (simp add: binade_def)
  then have "ulp x = 2 powi \<lfloor>log 2 \<bar>x\<bar>\<rfloor> / 2 ^ 52"
    by (simp add: ulp_def power_int_diff)
  then show ?thesis using powi_floor_log[OF assms] by (simp add: divide_right_mono)
next
  case False
  then have "binade x = - 1022" by (simp add: binade_def)
  then show ?thesis by (simp add: ulp_def)
qed

lemma fl_err:
  assumes "x \<noteq> 0"
  shows "\<bar>of_int (round_even (x / ulp x)) * ulp x - x\<bar> \<le> ulp x / 2"
proof -
  have "\<bar>of_int (round_even (x / ulp x)) - x / ulp x\<bar> * ulp x \<le> (1 / 2) * ulp x"
    using round_even_err[of "x / ulp x"] ulp_pos[of x] by (intro mult_right_mono) simp_all
  moreover have "\<bar>of_int (round_even (x / ulp x)) - x / ulp x\<bar> * ulp x
      = \<bar>of_int (round_even (x / ulp x)) * ulp x - x\<bar>"
  proof -
    have "\<bar>of_int (round_even (x / ulp x)) - x / ulp x\<bar> * ulp x
        = \<bar>(of_int (round_even (x / ulp x)) - x / ulp x) * ulp x\<bar>"
      using ulp_pos[of x] by (simp add: abs_mult)
    also have "(of_int (round_even (x / ulp x)) - x / ulp x) * ulp x
        = of_int (round_even (x / ulp x)) * ulp x - x"
      using ulp_pos[of x] by (simp add: field_simps)
    finally show ?thesis .
  qed
  ultimately show ?thesis by simp
qed

text \<open>A value of moderate size rounds to a finite float close to it.\<close>

lemma fl_finite:
  assumes "\<bar>x\<bar> \<le> 2 ^ 1022"
  shows "\<exists>r. fl x = Fin r \<and> \<bar>r - x\<bar> \<le> \<bar>x\<bar> / 2 ^ 53 + 1 / 2 ^ 1075"
proof (cases "x = 0")
  case True
  then show ?thesis by (simp add: fl_def)
next
  case False
  let ?r = "of_int (round_even (x / ulp x)) * ulp x"
  have "ulp x / 2 \<le> \<bar>x\<bar> / 2 ^ 53 + 1 / 2 ^ 1075"
    using ulp_le[OF False] by (auto simp: field_simps)
  with fl_err[OF False] have err: "\<bar>?r - x\<bar> \<le> \<bar>x\<bar> / 2 ^ 53 + 1 / 2 ^ 1075" by linarith
  have "\<bar>x\<bar> / 2 ^ 53 \<le> \<bar>x\<bar>" by (simp add: field_simps)
  moreover have "(1::real) / 2 ^ 1075 \<le> 1" by simp
  ultimately have "\<bar>?r\<bar> \<le> 2 * 2 ^ 1022 + 1" using err assms by linarith
  also have "\<dots> < (2::real) ^ 1024" by simp
  finally have "\<not> 2 ^ 1024 \<le> \<bar>?r\<bar>" by simp
  then have "fl x = Fin ?r" using False by (simp add: fl_def Let_def)
  with err show ?thesis by blast
qed

lemma round_even_ge:
  assumes "of_int m \<le> y"
  shows "m \<le> round_even y"
proof -
  have "real_of_int m - 1 / 2 \<le> of_int (round_even y)"
    using round_even_err[of y] assms by linarith
  then have "real_of_int m - 1 < of_int (round_even y)" by linarith
  then have "real_of_int (m - 1) < of_int (round_even y)" by simp
  then have "m - 1 < round_even y" by (simp only: of_int_less_iff)
  then show ?thesis by simp
qed

lemma round_even_le:
  assumes "y \<le> of_int m"
  shows "round_even y \<le> m"
proof -
  have "of_int (round_even y) \<le> real_of_int m + 1 / 2"
    using round_even_err[of y] assms by linarith
  then have "of_int (round_even y) < real_of_int m + 1" by linarith
  then have "real_of_int (round_even y) < of_int (m + 1)" by simp
  then have "round_even y < m + 1" by (simp only: of_int_less_iff)
  then show ?thesis by simp
qed

lemma binade_ge:
  assumes "2 ^ 1024 \<le> \<bar>x\<bar>"
  shows "1024 \<le> binade x \<and> 2 powi binade x \<le> \<bar>x\<bar>"
proof -
  have x: "x \<noteq> 0" using assms by auto
  let ?e = "\<lfloor>log 2 \<bar>x\<bar>\<rfloor>"
  have b: "2 powi ?e \<le> \<bar>x\<bar>" "\<bar>x\<bar> < 2 powi (?e + 1)"
    using powi_floor_log[OF x] by simp_all
  have "(2::real) powi 1024 \<le> \<bar>x\<bar>" using assms by simp
  then have lt: "(2::real) powi 1024 < 2 powi (?e + 1)" using b(2) by linarith
  have e: "1024 \<le> ?e"
  proof (rule ccontr)
    assume "\<not> 1024 \<le> ?e"
    then have "?e + 1 \<le> 1024" by linarith
    then have "(2::real) powi (?e + 1) \<le> 2 powi 1024" by (intro power_int_increasing) simp_all
    with lt show False by linarith
  qed
  then have "binade x = ?e" unfolding binade_def by linarith
  with e b(1) show ?thesis by simp
qed

lemma fl_overflow:
  assumes "2 ^ 1024 \<le> \<bar>x\<bar>"
  shows "fl x = (if 0 < x then PInf else NInf)"
proof -
  have x: "x \<noteq> 0" using assms by auto
  let ?e = "binade x"
  let ?n = "round_even (x / ulp x)"
  have e: "1024 \<le> ?e" "2 powi ?e \<le> \<bar>x\<bar>" using binade_ge[OF assms] by simp_all
  have u: "ulp x * 2 ^ 52 = 2 powi ?e" by (simp add: ulp_def power_int_diff)
  have big: "(2::real) powi 1024 \<le> 2 powi ?e" using e(1) by (intro power_int_increasing) simp_all
  show ?thesis
  proof (cases "0 < x")
    case True
    have "of_int (2 ^ 52) \<le> x / ulp x"
      using e(2) True u ulp_pos[of x] by (simp add: field_simps)
    then have "2 ^ 52 \<le> ?n" by (rule round_even_ge)
    then have "(2::real) ^ 52 \<le> of_int ?n" by (metis of_int_le_iff of_int_numeral of_int_power)
    then have "2 ^ 52 * ulp x \<le> of_int ?n * ulp x"
      using ulp_pos[of x] by (intro mult_right_mono) simp_all
    then have "2 powi ?e \<le> of_int ?n * ulp x" using u by (simp add: mult.commute)
    then have r: "2 ^ 1024 \<le> of_int ?n * ulp x" using big by simp
    moreover have "(0::real) < 2 ^ 1024" by simp
    ultimately have "0 < of_int ?n * ulp x" by linarith
    with r True x show ?thesis by (simp add: fl_def Let_def)
  next
    case False
    then have neg: "x < 0" using x by simp
    have "x / ulp x \<le> of_int (- (2 ^ 52))"
      using e(2) neg u ulp_pos[of x] by (simp add: field_simps)
    then have "?n \<le> - (2 ^ 52)" by (rule round_even_le)
    then have "of_int ?n \<le> - ((2::real) ^ 52)"
      by (metis of_int_le_iff of_int_minus of_int_numeral of_int_power)
    then have "of_int ?n * ulp x \<le> - (2 ^ 52) * ulp x"
      using ulp_pos[of x] by (intro mult_right_mono) simp_all
    then have "of_int ?n * ulp x \<le> - (2 powi ?e)" using u by (simp add: mult.commute)
    then have r: "of_int ?n * ulp x \<le> - (2 ^ 1024)" using big by simp
    have p: "(0::real) < 2 ^ 1024" by simp
    have "\<not> 0 < of_int ?n * ulp x" using r p by linarith
    moreover have "2 ^ 1024 \<le> \<bar>of_int ?n * ulp x\<bar>" using r by linarith
    ultimately show ?thesis using False x by (simp add: fl_def Let_def)
  qed
qed

lemma float_of_int_small:
  assumes "\<bar>k\<bar> < 2 ^ 53"
  shows "float_of_int k = Inr (Fin (of_int k))"
  by (simp add: float_of_int_def fl_of_int[OF assms])

lemma nearest_of_int: "\<bar>k\<bar> < 2 ^ 53 \<Longrightarrow> nearest (of_int k) = of_int k"
  by (simp add: nearest_def fl_of_int)

lemma fl_nearest_finite:
  assumes "\<bar>x\<bar> \<le> 2 ^ 1022"
  shows "fl x = Fin (nearest x) \<and> \<bar>nearest x\<bar> \<le> 2 * \<bar>x\<bar> + 1"
proof -
  from fl_finite[OF assms] obtain r where
    r: "fl x = Fin r" "\<bar>r - x\<bar> \<le> \<bar>x\<bar> / 2 ^ 53 + 1 / 2 ^ 1075" by blast
  have "\<bar>x\<bar> / 2 ^ 53 \<le> \<bar>x\<bar>" by (simp add: field_simps)
  moreover have "(1::real) / 2 ^ 1075 \<le> 1" by simp
  ultimately have "\<bar>r\<bar> \<le> 2 * \<bar>x\<bar> + 1" using r(2) by linarith
  with r(1) show ?thesis by (simp add: nearest_def)
qed


section \<open>Gradient interpolation\<close>

lemma ebind_Inr [simp]: "ebind (Inr x) f = f x"
  by (simp add: ebind_def)

lemma ebind_Inl [simp]: "ebind (Inl e) f = Inl e"
  by (simp add: ebind_def)

lemma ebind_eq_Inr: "ebind m f = Inr y \<longleftrightarrow> (\<exists>x. m = Inr x \<and> f x = Inr y)"
  by (cases m) simp_all

lemma py_int_of_int: "py_int (of_int n) = n"
  by (simp add: py_int_def)

lemma py_int_trunc: "py_int x = trunc_toward_zero x"
  by (auto simp: py_int_def trunc_toward_zero_def ceiling_def)

lemma clamp_spec: "min (max (v::int) 0) 255 = (if v < 0 then 0 else if 255 < v then 255 else v)"
  by auto

lemma small_channel: "0 \<le> (c::int) \<Longrightarrow> c \<le> 255 \<Longrightarrow> \<bar>c\<bar> < 2 ^ 53"
  by simp

lemma small_slope:
  "0 \<le> (s::int) \<Longrightarrow> s \<le> 255 \<Longrightarrow> 0 \<le> e \<Longrightarrow> e \<le> 255 \<Longrightarrow> \<bar>e - s\<bar> < 2 ^ 53"
  by simp

lemma interp_channel_0:
  assumes "0 \<le> s" "s \<le> 255" "0 \<le> e" "e \<le> 255"
  shows "interp_channel s (e - s) (Fin 0) = Inr s"
proof -
  have "fl 0 = Fin 0" by (simp add: fl_def)
  then show ?thesis
    using float_of_int_small[OF small_slope[OF assms]] float_of_int_small[OF small_channel[OF assms(1,2)]]
      fl_of_int[OF small_channel[OF assms(1,2)]]
    by (simp add: interp_channel_def py_int_of_int)
qed

lemma interp_channel_1:
  assumes "0 \<le> s" "s \<le> 255" "0 \<le> e" "e \<le> 255"
  shows "interp_channel s (e - s) (Fin 1) = Inr e"
proof -
  have sum: "real_of_int s + real_of_int (e - s) = real_of_int e" by simp
  have "interp_channel s (e - s) (Fin 1)
      = int_of_float (fl (real_of_int s + real_of_int (e - s)))"
    using float_of_int_small[OF small_slope[OF assms]]
      float_of_int_small[OF small_channel[OF assms(1,2)]] fl_of_int[OF small_slope[OF assms]]
    by (simp add: interp_channel_def del: of_int_diff)
  also have "\<dots> = Inr e"
    unfolding sum using fl_of_int[OF small_channel[OF assms(3,4)]] by (simp add: py_int_of_int)
  finally show ?thesis .
qed

lemma interp_channel_finite:
  assumes "0 \<le> s" "s \<le> 255" "0 \<le> e" "e \<le> 255" and t: "\<bar>t\<bar> \<le> 2 ^ 1000"
  shows "interp_channel s (e - s) (Fin t)
     = Inr (trunc_toward_zero (nearest (of_int s + nearest ((of_int e - of_int s) * t))))"
proof -
  let ?x = "(real_of_int e - real_of_int s) * t"
  have "\<bar>real_of_int e - real_of_int s\<bar> \<le> 255" using assms(1-4) by linarith
  then have "\<bar>real_of_int e - real_of_int s\<bar> * \<bar>t\<bar> \<le> 255 * 2 ^ 1000"
    using t by (intro mult_mono) simp_all
  then have x: "\<bar>?x\<bar> \<le> 255 * 2 ^ 1000" by (simp add: abs_mult)
  have "(255::real) * 2 ^ 1000 \<le> 2 ^ 1022" by simp
  with x have "\<bar>?x\<bar> \<le> 2 ^ 1022" by linarith
  from fl_nearest_finite[OF this] have p: "fl ?x = Fin (nearest ?x)"
    "\<bar>nearest ?x\<bar> \<le> 2 * \<bar>?x\<bar> + 1" by simp_all
  let ?y = "real_of_int s + nearest ?x"
  have "\<bar>?y\<bar> \<le> 255 + (2 * (255 * 2 ^ 1000) + 1)" using p(2) x assms(1,2) by linarith
  moreover have "(255::real) + (2 * (255 * 2 ^ 1000) + 1) \<le> 2 ^ 1022" by simp
  ultimately have "\<bar>?y\<bar> \<le> 2 ^ 1022" by linarith
  from fl_nearest_finite[OF this] have q: "fl ?y = Fin (nearest ?y)" by simp
  show ?thesis
    using float_of_int_small[OF small_slope[OF assms(1-4)]]
      float_of_int_small[OF small_channel[OF assms(1,2)]] p(1) q
    by (simp add: interp_channel_def py_int_trunc)
qed

lemma calculate_color_range:
  assumes "calculate_color grad val = Inr c"
  shows "color_ok c"
  using assms by (auto simp: calculate_color_def Let_def ebind_eq_Inr color_ok_def)

text \<open>
  Claim C3, as the code has it. For a gradient whose endpoint channels lie in 0..255,
  calculate_color at the float 0 returns exactly the start colour and at the float 1
  exactly the end colour. For every finite float t of magnitude at most 2 to the 1000
  it returns a colour, each channel being start + (end - start) * t evaluated in float
  arithmetic (the product rounded, then the sum rounded), truncated toward zero and
  clamped. Whenever calculate_color returns, for any float at all, every channel lies
  in 0..255.
\<close>

theorem calculate_color_spec:
  assumes "color_ok (r0, g0, b0)" and "color_ok (r1, g1, b1)"
  shows "calculate_color ((r0, g0, b0), (r1, g1, b1)) (Fin 0) = Inr (r0, g0, b0)
       \<and> calculate_color ((r0, g0, b0), (r1, g1, b1)) (Fin 1) = Inr (r1, g1, b1)
       \<and> (\<forall>t. \<bar>t\<bar> \<le> 2 ^ 1000 \<longrightarrow>
              calculate_color ((r0, g0, b0), (r1, g1, b1)) (Fin t)
                = Inr (channel_float r0 r1 t, channel_float g0 g1 t, channel_float b0 b1 t))
       \<and> (\<forall>val c. calculate_color ((r0, g0, b0), (r1, g1, b1)) val = Inr c \<longrightarrow> color_ok c)"
proof -
  have ok: "0 \<le> r0" "r0 \<le> 255" "0 \<le> g0" "g0 \<le> 255" "0 \<le> b0" "b0 \<le> 255"
    "0 \<le> r1" "r1 \<le> 255" "0 \<le> g1" "g1 \<le> 255" "0 \<le> b1" "b1 \<le> 255"
    using assms by (simp_all add: color_ok_def)
  have zero: "calculate_color ((r0, g0, b0), (r1, g1, b1)) (Fin 0) = Inr (r0, g0, b0)"
    using ok by (simp add: calculate_color_def interp_channel_0)
  have one: "calculate_color ((r0, g0, b0), (r1, g1, b1)) (Fin 1) = Inr (r1, g1, b1)"
    using ok by (simp add: calculate_color_def interp_channel_1)
  have mid: "calculate_color ((r0, g0, b0), (r1, g1, b1)) (Fin t)
                = Inr (channel_float r0 r1 t, channel_float g0 g1 t, channel_float b0 b1 t)"
    if "\<bar>t\<bar> \<le> 2 ^ 1000" for t
    using ok that
    by (simp add: calculate_color_def interp_channel_finite channel_float_def Let_def clamp_spec)
  show ?thesis using zero one mid calculate_color_range by blast
qed


subsection \<open>Evaluating a rounding\<close>

text \<open>
  A rounding is computed from the exponent of the argument and the integer nearest
  to the argument scaled by the spacing of that exponent.
\<close>

lemma fl_round:
  assumes "2 powi e \<le> \<bar>x\<bar>" and "\<bar>x\<bar> < 2 powi (e + 1)" and "- 1022 \<le> e"
    and "round_even (x / 2 powi (e - 52)) = n"
    and "\<bar>of_int n * 2 powi (e - 52)\<bar> < (2::real) ^ 1024"
  shows "fl x = Fin (of_int n * 2 powi (e - 52))"
proof -
  have pos: "0 < (2::real) powi e" by simp
  have "x \<noteq> 0"
  proof
    assume "x = 0"
    with assms(1) pos show False by simp
  qed
  then show ?thesis
    using binade_eqI[OF assms(1-3)] assms(4,5) by (simp add: fl_def ulp_def Let_def)
qed

lemma fl_eval:
  assumes "2 powi e \<le> \<bar>x\<bar>" and "\<bar>x\<bar> < 2 powi (e + 1)" and "- 1022 \<le> e"
    and "\<bar>x / 2 powi (e - 52) - of_int n\<bar> < 1 / 2"
    and "\<bar>of_int n * 2 powi (e - 52)\<bar> < (2::real) ^ 1024"
  shows "fl x = Fin (of_int n * 2 powi (e - 52))"
  using assms(1-3) round_even_unique[OF assms(4)] assms(5) by (rule fl_round)


text \<open>
  The float written 0.2 is 3602879701896397 over 2 to the 54. The roundings of the
  debian gradient at that float.
\<close>

lemma example_product_red: "fl (- 205 * (3602879701896397 / 2 ^ 54)) = Fin (- 41)"
  using fl_eval[of 5 "- 205 * (3602879701896397 / 2 ^ 54)" "- 5770237022568448"] by simp

lemma example_product_blue:
  "fl (- 73 * (3602879701896397 / 2 ^ 54)) = Fin (- 8219069319951156 / 2 ^ 49)"
  using fl_eval[of 3 "- 73 * (3602879701896397 / 2 ^ 54)" "- 8219069319951156"] by simp

lemma example_sum_blue:
  "fl (83 + - 8219069319951156 / 2 ^ 49) = Fin (4813222101752218 / 2 ^ 46)"
proof -
  have "round_even ((83 + - 8219069319951156 / 2 ^ 49) / 2 powi (6 - 52)) = 4813222101752218"
    by (simp add: round_even_def Let_def)
  from fl_round[OF _ _ _ this] show ?thesis by simp
qed


lemma fl_small_values:
  "fl 0 = Fin 0" "fl 10 = Fin 10" "fl 174 = Fin 174" "fl 215 = Fin 215" "fl 255 = Fin 255"
  "fl 248 = Fin 248" "fl 83 = Fin 83" "fl 9 = Fin 9"
  "fl (- 205) = Fin (- 205)" "fl (- 73) = Fin (- 73)" "fl (- 183) = Fin (- 183)"
  using fl_of_int[of 0] fl_of_int[of 10] fl_of_int[of 174] fl_of_int[of 215] fl_of_int[of 255]
    fl_of_int[of 248] fl_of_int[of 83] fl_of_int[of 9]
    fl_of_int[of "- 205"] fl_of_int[of "- 73"] fl_of_int[of "- 183"]
  by simp_all

text \<open>
  Claim C3 as worded, with the channel formula read over the reals, fails at the float
  0.2 for the debian gradient: the product - 205 * 0.2 rounds to exactly - 41, so the
  code returns red 174, while start + (end - start) * t is a little below 174 over the
  reals and truncates to 173.
\<close>

theorem calculate_color_inexact_example:
  "calculate_color ((215, 10, 83), (10, 10, 10)) (Fin (3602879701896397 / 2 ^ 54))
     = Inr (174, 10, 68)
   \<and> (channel_spec 215 10 (3602879701896397 / 2 ^ 54),
       channel_spec 10 10 (3602879701896397 / 2 ^ 54),
       channel_spec 83 10 (3602879701896397 / 2 ^ 54)) = (173, 10, 68)
   \<and> calculate_color ((215, 10, 83), (10, 10, 10)) (Fin (3602879701896397 / 2 ^ 54))
       \<noteq> Inr (channel_spec 215 10 (3602879701896397 / 2 ^ 54),
               channel_spec 10 10 (3602879701896397 / 2 ^ 54),
               channel_spec 83 10 (3602879701896397 / 2 ^ 54))"
proof -
  have red: "interp_channel 215 (- 205) (Fin (3602879701896397 / 2 ^ 54)) = Inr 174"
    using example_product_red
    by (simp add: interp_channel_def float_of_int_def fl_small_values py_int_def)
  have green: "interp_channel 10 0 (Fin (3602879701896397 / 2 ^ 54)) = Inr 10"
    by (simp add: interp_channel_def float_of_int_def fl_small_values py_int_def)
  have blue: "interp_channel 83 (- 73) (Fin (3602879701896397 / 2 ^ 54)) = Inr 68"
    using example_product_blue example_sum_blue
    by (simp add: interp_channel_def float_of_int_def fl_small_values py_int_def)
  have code: "calculate_color ((215, 10, 83), (10, 10, 10)) (Fin (3602879701896397 / 2 ^ 54))
     = Inr (174, 10, 68)"
    using red green blue by (simp add: calculate_color_def)
  have spec: "(channel_spec 215 10 (3602879701896397 / 2 ^ 54),
       channel_spec 10 10 (3602879701896397 / 2 ^ 54),
       channel_spec 83 10 (3602879701896397 / 2 ^ 54)) = (173, 10, 68)"
    by (simp add: channel_spec_def trunc_toward_zero_def)
  show ?thesis unfolding code spec by simp
qed

text \<open>
  Beyond the bound the product can overflow: the float written 1e308 is
  5010420900022432 times 2 to the 971, and there the sunshine gradient raises.
\<close>

lemma calculate_color_overflow_example:
  "calculate_color ((255, 248, 9), (255, 65, 9)) (Fin (5010420900022432 * 2 ^ 971))
     = Inl OverflowError"
proof -
  have "fl (- 183 * (5010420900022432 * 2 ^ 971)) = NInf"
    using fl_overflow[of "- 183 * (5010420900022432 * 2 ^ 971)"] by simp
  then have green: "interp_channel 248 (- 183) (Fin (5010420900022432 * 2 ^ 971)) = Inl OverflowError"
    by (simp add: interp_channel_def float_of_int_def fl_small_values)
  have red: "interp_channel 255 0 (Fin (5010420900022432 * 2 ^ 971)) = Inr 255"
    by (simp add: interp_channel_def float_of_int_def fl_small_values py_int_def)
  show ?thesis using red green by (simp add: calculate_color_def)
qed

text \<open>The sunshine gradient half way: the green channel is 156.5 truncated.\<close>

lemma half_channels:
  "channel_float 255 255 (1 / 2) = 255" "channel_float 248 65 (1 / 2) = 156"
  "channel_float 9 9 (1 / 2) = 9"
proof -
  have p: "fl (- (183 / 2)) = Fin (- (183 / 2))"
    using fl_eval[of 6 "- (183 / 2)" "- 6438740092256256"] by simp
  have s: "fl (313 / 2) = Fin (313 / 2)"
    using fl_eval[of 7 "313 / 2" 5506354231902208] by simp
  have f: "\<lfloor>313 / 2 :: real\<rfloor> = 156" by (rule floor_unique) simp_all
  show "channel_float 248 65 (1 / 2) = 156"
    using p s f by (simp add: channel_float_def nearest_def trunc_toward_zero_def)
  show "channel_float 255 255 (1 / 2) = 255"
    by (simp add: channel_float_def nearest_def fl_small_values trunc_toward_zero_def)
  show "channel_float 9 9 (1 / 2) = 9"
    by (simp add: channel_float_def nearest_def fl_small_values trunc_toward_zero_def)
qed

theorem calculate_color_spec_witness:
  "color_ok (255, 248, 9) \<and> color_ok (255, 65, 9)
   \<and> calculate_color ((255, 248, 9), (255, 65, 9)) (Fin 0) = Inr (255, 248, 9)
   \<and> calculate_color ((255, 248, 9), (255, 65, 9)) (Fin 1) = Inr (255, 65, 9)
   \<and> \<bar>1 / 2 :: real\<bar> \<le> 2 ^ 1000
   \<and> calculate_color ((255, 248, 9), (255, 65, 9)) (Fin (1 / 2)) = Inr (255, 156, 9)
   \<and> color_ok (255, 156, 9)"
proof -
  have ok: "color_ok (255, 248, 9)" "color_ok (255, 65, 9)" by (simp_all add: color_ok_def)
  have half: "\<bar>1 / 2 :: real\<bar> \<le> 2 ^ 1000" by simp
  note inst = calculate_color_spec[OF ok]
  from inst half have "calculate_color ((255, 248, 9), (255, 65, 9)) (Fin (1 / 2))
       = Inr (channel_float 255 255 (1 / 2), channel_float 248 65 (1 / 2),
              channel_float 9 9 (1 / 2))" by blast
  then have mid: "calculate_color ((255, 248, 9), (255, 65, 9)) (Fin (1 / 2)) = Inr (255, 156, 9)"
    by (simp only: half_channels)
  with inst have "color_ok (255, 156, 9)" by blast
  with inst ok half mid show ?thesis by blast
qed

section \<open>Colour assignment and rendering\<close>

lemma draw_loop_closed:
  "i + k = length polys \<Longrightarrow> length colors = length polys \<Longrightarrow>
     draw_loop i k colors polys ol d
       = Inr (d @ map (\<lambda>j. (polys ! j, colors ! j, ol)) [i ..< i + k])"
proof (induction k arbitrary: i d)
  case 0
  then show ?case by simp
next
  case (Suc k)
  then have "i < length colors" by simp
  moreover have "Suc i + k = length polys" using Suc.prems by simp
  moreover have "[i ..< i + Suc k] = i # [Suc i ..< Suc i + k]"
    by (simp add: upt_conv_Cons)
  ultimately show ?case
    using Suc.IH[of "Suc i" "d @ [(polys ! i, colors ! i, ol)]"] Suc.prems
    by (simp del: upt_Suc)
qed

lemma draw_polys_fills:
  assumes "length colors = length polys"
  shows "\<exists>drawn. draw_polys [] colors polys b oc = Inr drawn
           \<and> map (\<lambda>q. fst (snd q)) drawn = colors \<and> map fst drawn = polys"
proof -
  have "map (\<lambda>j. colors ! j) [0 ..< length polys] = colors"
    using assms by (metis map_nth)
  moreover have "map (\<lambda>j. polys ! j) [0 ..< length polys] = polys"
    by (rule map_nth)
  ultimately show ?thesis
    using assms draw_loop_closed[of 0 "length polys" polys colors]
    by (simp add: draw_polys_def o_def)
qed

lemma int_centroid_in_range:
  assumes "1 \<le> fst sz" and "1 \<le> snd sz"
  shows "0 \<le> fst (int_centroid c sz) \<and> fst (int_centroid c sz) \<le> fst sz - 1
       \<and> 0 \<le> snd (int_centroid c sz) \<and> snd (int_centroid c sz) \<le> snd sz - 1"
proof -
  have clamp: "0 \<le> py_int (min (max x 0) (of_int (n - 1)))
             \<and> py_int (min (max x 0) (of_int (n - 1))) \<le> n - 1" if "1 \<le> n" for x :: real and n :: int
  proof -
    let ?v = "min (max x 0) (real_of_int (n - 1))"
    have v: "0 \<le> ?v" "?v \<le> real_of_int (n - 1)" using that by simp_all
    have "\<lfloor>?v\<rfloor> \<le> \<lfloor>real_of_int (n - 1)\<rfloor>" by (rule floor_mono) (rule v(2))
    then have "\<lfloor>?v\<rfloor> \<le> n - 1" by (simp only: floor_of_int)
    moreover have "0 \<le> \<lfloor>?v\<rfloor>" using v(1) by simp
    ultimately show ?thesis using v(1) by (simp add: py_int_def)
  qed
  show ?thesis using clamp[OF assms(1)] clamp[OF assms(2)] by (simp add: int_centroid_def)
qed

lemma load_pixel_clamped:
  assumes "1 \<le> fst (img_size img)" and "1 \<le> snd (img_size img)"
  shows "load_pixel img (int_centroid c (img_size img)) = Inr (img_pixels img (int_centroid c (img_size img)))"
  using int_centroid_in_range[OF assms, of c] by (simp add: load_pixel_def)

lemma image_loop_closed:
  assumes "1 \<le> fst (img_size img)" and "1 \<le> snd (img_size img)"
  shows "image_loop env img (img_size img) ts acc
     = Inr (acc @ map (\<lambda>t. img_pixels img (int_centroid (tri_centroid env t) (img_size img))) ts)"
  by (induction ts arbitrary: acc) (simp_all add: load_pixel_clamped[OF assms])

lemma main_reaches_render:
  assumes "check_source env options w = (Inr bg, w1)"
    and "canvas_size options bg w1 = (Inr sz, w2)"
    and "generate_points (random_source env) (opt_n_points options) sz (5 / 4)
           (opt_decluster options) (rng_pos w2) = Inr (points, pos)"
    and "delaunay_triangulation env points = Some triangulation"
    and "triangulation \<noteq> []"
  shows "main env options w
     = render env options bg sz triangulation
         (w2\<lparr>rng_pos := pos, triangulated := triangulated w2 @ [points]\<rparr>)"
  using assms by (simp add: main_def)

lemma check_source_world:
  assumes "check_source env options w = (r, w')"
  shows "rng_pos w' = rng_pos w \<and> triangulated w' = triangulated w \<and> files w' = files w"
  using assms
  by (auto simp: check_source_def Let_def py_print_def split: if_splits option.splits)

lemma canvas_size_world:
  assumes "canvas_size options bg w = (r, w')"
  shows "rng_pos w' = rng_pos w \<and> triangulated w' = triangulated w \<and> files w' = files w"
  using assms
  by (auto simp: canvas_size_def Let_def py_print_def split: if_splits option.splits)


lemma darken_loop_length:
  "darken_loop src amount colors i k pos = Inr (cs, pos') \<Longrightarrow> length cs = length colors"
proof (induction k arbitrary: colors i pos)
  case 0
  then show ?case by simp
next
  case (Suc k)
  then show ?case by (auto simp: randrange_def split: if_splits)
qed

lemma darken_colors_length:
  "darken_colors src amount colors pos = Inr (cs, pos') \<Longrightarrow> length cs = length colors"
  by (auto simp: darken_colors_def darken_loop_length split: option.splits if_splits)

lemma darken_colors_off:
  "\<not> truthy_int amount \<Longrightarrow> darken_colors src amount colors pos = Inr (colors, pos)"
  by (auto simp: darken_colors_def truthy_int_def split: option.splits)

lemma render_saved:
  assumes "assign_colors env options bg sz triangulation
             (map (\<lambda>t. cart_to_screen t sz) triangulation) = Inr colors"
    and "length colors = length triangulation"
    and "darken_colors (random_source env) (opt_darken_amount options) colors (rng_pos w)
           = Inr (colors', pos)"
    and "image_save env (opt_filename options) = None"
  shows "\<exists>r. render env options bg sz triangulation w
            = (Exit 0, py_print (''Image saved to '' @ opt_filename options)
                 (w\<lparr>rng_pos := pos, files := files w @ [(opt_filename options, r)]\<rparr>))
           \<and> fills r = colors' \<and> ras_size r = sz"
proof -
  let ?trans = "map (\<lambda>t. cart_to_screen t sz) triangulation"
  let ?trans' = "if opt_antialias options
                 then map (map (\<lambda>v. (fst v * aa_amount, snd v * aa_amount))) ?trans else ?trans"
  have "length colors' = length ?trans'"
    using darken_colors_length[OF assms(3)] assms(2) by simp
  from draw_polys_fills[OF this, of "opt_lines options" "(255, 255, 255)"]
  obtain drawn where drawn:
    "draw_polys [] colors' ?trans' (opt_lines options) (255, 255, 255) = Inr drawn"
    "map (\<lambda>q. fst (snd q)) drawn = colors'" by blast
  let ?sz' = "if opt_antialias options then (fst sz * aa_amount, snd sz * aa_amount) else sz"
  let ?out = "if opt_antialias options then (fst ?sz' div aa_amount, snd ?sz' div aa_amount) else ?sz'"
  let ?r = "\<lparr>ras_size = ?out, ras_painted_size = ?sz', ras_painted = drawn\<rparr>"
  have "render env options bg sz triangulation w
            = (Exit 0, py_print (''Image saved to '' @ opt_filename options)
                 (w\<lparr>rng_pos := pos, files := files w @ [(opt_filename options, ?r)]\<rparr>))"
    using assms(1,3,4) drawn(1) by (simp add: render_def Let_def)
  moreover have "fills ?r = colors'" using drawn(2) by (simp add: fills_def)
  moreover have "ras_size ?r = sz" by (simp add: aa_amount_def)
  ultimately show ?thesis by blast
qed




lemma py_int_clamp:
  assumes "1 \<le> n"
  shows "py_int (min (max x 0) (of_int (n - 1))) = spec_clamp x n"
proof -
  have n: "0 \<le> real_of_int (n - 1)" using assms by simp
  show ?thesis
  proof (cases "x < 0")
    case True
    then have "min (max x 0) (real_of_int (n - 1)) = 0" using n by (simp add: max_def min_def)
    then show ?thesis using True by (simp add: py_int_def spec_clamp_def)
  next
    case False
    show ?thesis
    proof (cases "real_of_int (n - 1) < x")
      case True
      then have "min (max x 0) (real_of_int (n - 1)) = real_of_int (n - 1)"
        using False by (simp add: max_def min_def)
      then show ?thesis
        using True False n by (simp only: py_int_def spec_clamp_def floor_of_int if_True if_False)
    next
      case upper: False
      then have "min (max x 0) (real_of_int (n - 1)) = x"
        using False by (simp add: max_def min_def)
      then show ?thesis
        using upper False by (simp only: py_int_def spec_clamp_def) simp
    qed
  qed
qed

lemma int_centroid_spec:
  assumes "1 \<le> fst sz" and "1 \<le> snd sz"
  shows "int_centroid c sz = (spec_clamp (fst c) (fst sz), spec_clamp (snd c) (snd sz))"
  unfolding int_centroid_def
  by (simp only: py_int_clamp[OF assms(1)] py_int_clamp[OF assms(2)])

lemma spec_clamp_range:
  assumes "1 \<le> n"
  shows "0 \<le> spec_clamp c n \<and> spec_clamp c n \<le> n - 1"
proof -
  have "\<lfloor>c\<rfloor> \<le> n - 1" if "\<not> real_of_int (n - 1) < c"
  proof -
    from that have "c \<le> real_of_int (n - 1)" by simp
    then have "\<lfloor>c\<rfloor> \<le> \<lfloor>real_of_int (n - 1)\<rfloor>" by (rule floor_mono)
    then show ?thesis by (simp only: floor_of_int)
  qed
  moreover have "0 \<le> \<lfloor>c\<rfloor>" if "\<not> c < 0" using that by simp
  ultimately show ?thesis using assms by (auto simp: spec_clamp_def)
qed

lemma image_colors:
  assumes "truthy_str (opt_image options)"
    and "1 \<le> fst (img_size img)" and "1 \<le> snd (img_size img)"
  shows "assign_colors env options (Some img) (img_size img) triangulation trans_triangulation
     = Inr (map (\<lambda>t. spec_sample img (tri_centroid env t)) trans_triangulation)"
proof -
  have "img_pixels img (int_centroid c (img_size img)) = spec_sample img c" for c
    by (simp add: int_centroid_spec[OF assms(2,3)] spec_sample_def)
  then show ?thesis
    using assms(1) image_loop_closed[OF assms(2,3), of env trans_triangulation "[]"]
    by (simp add: assign_colors_def)
qed

lemma image_mode_start:
  assumes "opt_image options = Some path" and "path \<noteq> []"
    and "image_open env path = Some img"
  shows "\<exists>w1. check_source env options w = (Inr (Some img), w1)
           \<and> (\<exists>w2. canvas_size options (Some img) w1 = (Inr (img_size img), w2)
                \<and> rng_pos w2 = rng_pos w \<and> triangulated w2 = triangulated w
                \<and> files w2 = files w)"
  using assms
  by (simp add: check_source_def canvas_size_def truthy_str_def py_print_def Let_def)

lemma image_mode_run:
  assumes "opt_image options = Some path" and "path \<noteq> []"
    and "image_open env path = Some img"
    and "1 \<le> fst (img_size img)" and "1 \<le> snd (img_size img)"
    and "generate_points (random_source env) (opt_n_points options) (img_size img) (5 / 4)
           (opt_decluster options) (rng_pos w) = Inr (points, pos)"
    and "delaunay_triangulation env points = Some triangulation" and "triangulation \<noteq> []"
    and "darken_colors (random_source env) (opt_darken_amount options)
           (map (\<lambda>t. spec_sample img (tri_centroid env (cart_to_screen t (img_size img))))
              triangulation) pos = Inr (colors', pos')"
    and "image_save env (opt_filename options) = None"
  shows "\<exists>r w'. main env options w = (Exit 0, w')
           \<and> files w' = files w @ [(opt_filename options, r)]
           \<and> fills r = colors' \<and> ras_size r = img_size img \<and> rng_pos w' = pos'"
proof -
  let ?sz = "img_size img"
  let ?colors = "map (\<lambda>t. spec_sample img (tri_centroid env (cart_to_screen t ?sz))) triangulation"
  have truthy: "truthy_str (opt_image options)"
    using assms(1,2) by (simp add: truthy_str_def)
  have colors: "assign_colors env options (Some img) ?sz triangulation
            (map (\<lambda>t. cart_to_screen t ?sz) triangulation) = Inr ?colors"
    using image_colors[OF truthy assms(4,5)] by (simp add: o_def)
  from image_mode_start[OF assms(1-3), of w] obtain w1 w2 where
    start: "check_source env options w = (Inr (Some img), w1)"
      "canvas_size options (Some img) w1 = (Inr ?sz, w2)"
      "rng_pos w2 = rng_pos w" "triangulated w2 = triangulated w" "files w2 = files w"
    by auto
  let ?w3 = "w2\<lparr>rng_pos := pos, triangulated := triangulated w2 @ [points]\<rparr>"
  have m: "main env options w = render env options (Some img) ?sz triangulation ?w3"
    by (rule main_reaches_render[OF start(1,2) _ assms(7,8)]) (simp add: start(3) assms(6))
  have "\<exists>r. render env options (Some img) ?sz triangulation ?w3
            = (Exit 0, py_print (''Image saved to '' @ opt_filename options)
                 (?w3\<lparr>rng_pos := pos', files := files ?w3 @ [(opt_filename options, r)]\<rparr>))
          \<and> fills r = colors' \<and> ras_size r = ?sz"
    using render_saved[where env = env and options = options and bg = "Some img"
        and sz = ?sz and triangulation = triangulation and colors = ?colors
        and colors' = colors' and pos = pos' and w = ?w3] colors assms(9,10)
    by simp
  then show ?thesis using m start(5) by (auto simp: py_print_def)
qed

subsection \<open>The gradient colour is defined\<close>








text \<open>
  Claim C5. In image mode with darkening disabled every triangle is painted with the
  pixel of the reference image at its screen-space centroid clamped componentwise to
  0..dimension-1: the sampling coordinate of the code is the clamped coordinate of the
  spec, within range, for every centroid and every image of at least one pixel. So for
  a 1 by 1 reference image of colour (10,20,30) every triangle of the run is painted
  with exactly (10,20,30).
\<close>

theorem image_mode_sampling:
  assumes "opt_image options = Some path" and "path \<noteq> []"
    and "image_open env path = Some img"
    and "1 \<le> fst (img_size img)" and "1 \<le> snd (img_size img)"
    and "\<not> truthy_int (opt_darken_amount options)"
    and "generate_points (random_source env) (opt_n_points options) (img_size img) (5 / 4)
           (opt_decluster options) (rng_pos w) = Inr (points, pos)"
    and "delaunay_triangulation env points = Some triangulation" and "triangulation \<noteq> []"
    and "image_save env (opt_filename options) = None"
  shows "(\<forall>c. int_centroid c (img_size img)
               = (spec_clamp (fst c) (fst (img_size img)), spec_clamp (snd c) (snd (img_size img)))
            \<and> 0 \<le> fst (int_centroid c (img_size img))
            \<and> fst (int_centroid c (img_size img)) \<le> fst (img_size img) - 1
            \<and> 0 \<le> snd (int_centroid c (img_size img))
            \<and> snd (int_centroid c (img_size img)) \<le> snd (img_size img) - 1)
       \<and> (\<exists>r w'. main env options w = (Exit 0, w')
             \<and> files w' = files w @ [(opt_filename options, r)]
             \<and> fills r = map (\<lambda>t. spec_sample img
                                 (tri_centroid env (cart_to_screen t (img_size img))))
                            triangulation
             \<and> (img_size img = (1, 1) \<and> img_pixels img (0, 0) = (10, 20, 30)
                  \<longrightarrow> fills r = replicate (length triangulation) (10, 20, 30)))"
proof -
  let ?colors = "map (\<lambda>t. spec_sample img (tri_centroid env (cart_to_screen t (img_size img))))
                   triangulation"
  have clamp: "int_centroid c (img_size img)
               = (spec_clamp (fst c) (fst (img_size img)), spec_clamp (snd c) (snd (img_size img)))
            \<and> 0 \<le> fst (int_centroid c (img_size img))
            \<and> fst (int_centroid c (img_size img)) \<le> fst (img_size img) - 1
            \<and> 0 \<le> snd (int_centroid c (img_size img))
            \<and> snd (int_centroid c (img_size img)) \<le> snd (img_size img) - 1" for c
    using int_centroid_spec[OF assms(4,5), of c] int_centroid_in_range[OF assms(4,5), of c]
    by simp
  have dk: "darken_colors (random_source env) (opt_darken_amount options) ?colors pos
      = Inr (?colors, pos)"
    by (rule darken_colors_off[OF assms(6)])
  from image_mode_run[OF assms(1-5,7-9) dk assms(10)]
  obtain r w' where run: "main env options w = (Exit 0, w')"
    "files w' = files w @ [(opt_filename options, r)]" "fills r = ?colors"
    by blast
  have unit: "fills r = replicate (length triangulation) (10, 20, 30)"
    if "img_size img = (1, 1)" and "img_pixels img (0, 0) = (10, 20, 30)"
  proof -
    have "spec_sample img c = (10, 20, 30)" for c
      using that by (simp add: spec_sample_def spec_clamp_def)
    then show ?thesis using run(3) by (simp add: map_replicate_const)
  qed
  show ?thesis using clamp run unit by blast
qed

text \<open>
  Claim C8. With no image configured and either no gradient name or a name that is not
  in the registry, the run exits with status 64 after printing one message: no random
  value has been drawn, the triangulator has not been called and no file is written.
\<close>

theorem config_error_before_work:
  assumes "\<not> truthy_str (opt_image options)"
    and "\<not> truthy_str (opt_gradient options) \<or> \<not> in_gradient (opt_gradient options)"
  shows "fst (main env options w) = Exit 64
       \<and> rng_pos (snd (main env options w)) = rng_pos w
       \<and> triangulated (snd (main env options w)) = triangulated w
       \<and> files (snd (main env options w)) = files w
       \<and> (\<exists>msg. stdout (snd (main env options w)) = stdout w @ [msg])"
  using assms by (auto simp: main_def check_source_def py_print_def Let_def)

text \<open>
  Claim C9. When the configuration is accepted, the points are generated and the
  triangulator returns None or an empty list for them, the run exits with status 1: the
  triangulator was called once, with the generated points, no random value was drawn
  after point generation, and no file is written.
\<close>

theorem triangulation_failure_aborts:
  assumes "check_source env options w = (Inr bg, w1)"
    and "canvas_size options bg w1 = (Inr sz, w2)"
    and "generate_points (random_source env) (opt_n_points options) sz (5 / 4)
           (opt_decluster options) (rng_pos w2) = Inr (points, pos)"
    and "\<not> truthy_tri (delaunay_triangulation env points)"
  shows "fst (main env options w) = Exit 1
       \<and> files (snd (main env options w)) = files w
       \<and> triangulated (snd (main env options w)) = triangulated w @ [points]
       \<and> rng_pos (snd (main env options w)) = pos
       \<and> stdout (snd (main env options w)) = stdout w2 @ [''Failed to find a triangulation.'']"
proof -
  let ?w3 = "w2\<lparr>rng_pos := pos, triangulated := triangulated w2 @ [points]\<rparr>"
  have "main env options w = (Exit 1, py_print ''Failed to find a triangulation.'' ?w3)"
    using assms by (auto simp: main_def truthy_tri_def split: option.splits)
  moreover have "files w2 = files w" "triangulated w2 = triangulated w"
    using check_source_world[OF assms(1)] canvas_size_world[OF assms(2)] by simp_all
  ultimately show ?thesis by (simp add: py_print_def)
qed

lemma render_stdout_irrelevant:
  assumes "rng_pos w = rng_pos w'" and "files w = files w'"
    and "opt_image options = opt_image options'"
    and "truthy_str (opt_image options)"
    and "opt_darken_amount options = opt_darken_amount options'"
    and "opt_antialias options = opt_antialias options'"
    and "opt_lines options = opt_lines options'"
    and "opt_filename options = opt_filename options'"
  shows "fst (render env options bg sz tri w) = fst (render env options' bg sz tri w')
       \<and> files (snd (render env options bg sz tri w)) = files (snd (render env options' bg sz tri w'))
       \<and> rng_pos (snd (render env options bg sz tri w)) = rng_pos (snd (render env options' bg sz tri w'))"
proof -
  have "assign_colors env options bg sz tri tr = assign_colors env options' bg sz tri tr" for tr
    using assms(3,4) by (simp add: assign_colors_def)
  then show ?thesis
    using assms(1,2,5-8)
    by (auto simp: render_def Let_def py_print_def split: sum.splits prod.splits option.splits)
qed

lemma gradient_ignored:
  assumes "opt_image options = Some path" and "path \<noteq> []"
    and "image_open env path = Some img"
  shows "fst (main env options w) = fst (main env (options\<lparr>opt_gradient := None\<rparr>) w)
       \<and> files (snd (main env options w))
           = files (snd (main env (options\<lparr>opt_gradient := None\<rparr>) w))"
proof -
  let ?options' = "options\<lparr>opt_gradient := None\<rparr>"
  have truthy: "truthy_str (opt_image options)"
    using assms(1,2) by (simp add: truthy_str_def)
  obtain w1 where src: "check_source env options w = (Inr (Some img), w1)"
    and w1: "rng_pos w1 = rng_pos w" "files w1 = files w"
    using assms truthy by (simp add: check_source_def py_print_def)
  have src': "check_source env ?options' w = (Inr (Some img), w)"
    using assms truthy by (simp add: check_source_def truthy_str_def)
  obtain w2 where size: "canvas_size options (Some img) w1 = (Inr (img_size img), w2)"
    and w2: "rng_pos w2 = rng_pos w" "files w2 = files w"
    using truthy w1 by (simp add: canvas_size_def py_print_def Let_def)
  obtain w2' where size': "canvas_size ?options' (Some img) w = (Inr (img_size img), w2')"
    and w2': "rng_pos w2' = rng_pos w" "files w2' = files w"
    using truthy by (simp add: canvas_size_def py_print_def Let_def)
  let ?gen = "generate_points (random_source env) (opt_n_points options) (img_size img) (5 / 4)
           (opt_decluster options) (rng_pos w)"
  show ?thesis
  proof (cases ?gen)
    case (Inl e)
    then show ?thesis
      using src src' size size' w2 w2' by (simp add: main_def)
  next
    case (Inr res)
    obtain points pos where res: "res = (points, pos)" by (cases res)
    let ?w3 = "w2\<lparr>rng_pos := pos, triangulated := triangulated w2 @ [points]\<rparr>"
    let ?w3' = "w2'\<lparr>rng_pos := pos, triangulated := triangulated w2' @ [points]\<rparr>"
    show ?thesis
    proof (cases "truthy_tri (delaunay_triangulation env points)")
      case False
      then show ?thesis
        using src src' size size' w2 w2' Inr res
        by (auto simp: main_def truthy_tri_def py_print_def split: option.splits)
    next
      case True
      then obtain tri where tri: "delaunay_triangulation env points = Some tri" "tri \<noteq> []"
        by (auto simp: truthy_tri_def split: option.splits)
      have "main env options w = render env options (Some img) (img_size img) tri ?w3"
        by (rule main_reaches_render[OF src size _ tri]) (simp add: w2 Inr res)
      moreover have "main env ?options' w = render env ?options' (Some img) (img_size img) tri ?w3'"
        by (rule main_reaches_render[OF src' size' _ tri]) (simp add: w2' Inr res)
      moreover have "fst (render env options (Some img) (img_size img) tri ?w3)
            = fst (render env ?options' (Some img) (img_size img) tri ?w3')
          \<and> files (snd (render env options (Some img) (img_size img) tri ?w3))
            = files (snd (render env ?options' (Some img) (img_size img) tri ?w3'))
          \<and> rng_pos (snd (render env options (Some img) (img_size img) tri ?w3))
            = rng_pos (snd (render env ?options' (Some img) (img_size img) tri ?w3'))"
        by (rule render_stdout_irrelevant) (simp_all add: w2 w2' truthy)
      ultimately show ?thesis by simp
    qed
  qed
qed

text \<open>
  Claim C10. With both a gradient name and a readable reference image configured, the
  validation does not fail: it prints the warning and opens the image. The run then
  proceeds in image mode: when the points are generated, a triangulation is found and
  the save succeeds, it exits with status 0 and the fill colours of the written image
  are the pixels of the reference image at the clamped screen-space centroids of the
  triangles (darkened when darkening is configured), whatever the gradient name is;
  outcome and written files are those of the same run without the gradient option.
\<close>

theorem image_supersedes_gradient:
  assumes "opt_image options = Some path" and "path \<noteq> []"
    and "truthy_str (opt_gradient options)"
    and "image_open env path = Some img"
    and "1 \<le> fst (img_size img)" and "1 \<le> snd (img_size img)"
    and "generate_points (random_source env) (opt_n_points options) (img_size img) (5 / 4)
           (opt_decluster options) (rng_pos w) = Inr (points, pos)"
    and "delaunay_triangulation env points = Some triangulation" and "triangulation \<noteq> []"
    and "darken_colors (random_source env) (opt_darken_amount options)
           (map (\<lambda>t. spec_sample img (tri_centroid env (cart_to_screen t (img_size img))))
              triangulation) pos = Inr (colors', pos')"
    and "image_save env (opt_filename options) = None"
  shows "check_source env options w
           = (Inr (Some img),
              py_print ''Image supercedes gradient; gradient selection ignored'' w)
       \<and> (\<exists>r w'. main env options w = (Exit 0, w')
             \<and> files w' = files w @ [(opt_filename options, r)]
             \<and> fills r = colors' \<and> ras_size r = img_size img \<and> rng_pos w' = pos')
       \<and> fst (main env options w) = fst (main env (options\<lparr>opt_gradient := None\<rparr>) w)
       \<and> files (snd (main env options w))
           = files (snd (main env (options\<lparr>opt_gradient := None\<rparr>) w))"
proof -
  have truthy: "truthy_str (opt_image options)"
    using assms(1,2) by (simp add: truthy_str_def)
  have src: "check_source env options w
           = (Inr (Some img),
              py_print ''Image supercedes gradient; gradient selection ignored'' w)"
    using assms(1-4) truthy by (simp add: check_source_def)
  note run = image_mode_run[OF assms(1,2,4-11)]
  note same = gradient_ignored[OF assms(1,2,4), of w]
  from src run same show ?thesis by blast
qed

section \<open>Concrete runs\<close>

lemma example_points:
  "generate_points (random_source example_env) 1 (100, 100) (5 / 4) False 0
     = Inr ([(28, 45), (-300, -10), (110, -300), (400, 110), (-100, 400)], 2)"
  by (simp add: generate_points_def example_env_def py_int_def randrange_def sentinels_def)

lemma photo_points:
  "generate_points (random_source photo_env) 1 (4, 3) (5 / 4) False 0
     = Inr ([(0, 0), (-300, -10), (14, -300), (304, 13), (-100, 303)], 2)"
proof -
  have "\<lceil>- (1 / 2 :: real)\<rceil> = 0" "\<lceil>- (3 / 8 :: real)\<rceil> = 0" "\<lfloor>15 / 4 :: real\<rfloor> = 3"
    by (simp_all add: ceiling_unique floor_unique)
  then show ?thesis
    by (simp add: generate_points_def photo_env_def py_int_def randrange_def sentinels_def)
qed

lemma pixel_points:
  "generate_points (random_source photo_env) 1 (1, 1) (5 / 4) False 0
     = Inr ([(0, 0), (-300, -10), (11, -300), (301, 11), (-100, 301)], 2)"
proof -
  have "\<lceil>- (1 / 8 :: real)\<rceil> = 0" by (rule ceiling_unique) simp_all
  then show ?thesis
    by (simp add: generate_points_def photo_env_def py_int_def randrange_def sentinels_def)
qed











theorem image_mode_sampling_witness:
  "image_open photo_env ''photo.png'' = Some photo_image \<and> img_size photo_image = (4, 3)
   \<and> generate_points (random_source photo_env) 1 (4, 3) (5 / 4) False 0
       = Inr ([(0, 0), (-300, -10), (14, -300), (304, 13), (-100, 303)], 2)
   \<and> delaunay_triangulation photo_env [(0, 0), (-300, -10), (14, -300), (304, 13), (-100, 303)]
       = Some [[(1000, 700), (1400, 720), (1440, 740)], [(1, 1), (2, 2), (3, 3)]]
   \<and> int_centroid (1280, - 717) (4, 3) = (3, 0) \<and> int_centroid (2, 1) (4, 3) = (2, 1)
   \<and> (\<exists>r w'. main photo_env (photo_options\<lparr>opt_gradient := None\<rparr>) world0 = (Exit 0, w')
         \<and> files w' = [(''triangles.png'', r)]
         \<and> fills r = [(30, 0, 30), (20, 20, 30)])
   \<and> image_open photo_env ''pixel.png'' = Some example_image
   \<and> (\<exists>r w'. main photo_env
                 (photo_options\<lparr>opt_gradient := None, opt_image := Some ''pixel.png''\<rparr>) world0
               = (Exit 0, w')
         \<and> files w' = [(''triangles.png'', r)]
         \<and> fills r = [(10, 20, 30), (10, 20, 30)])"
proof -
  let ?tri = "[[(1000, 700), (1400, 720), (1440, 740)], [(1, 1), (2, 2), (3, 3)]] :: triangle list"
  let ?o1 = "photo_options\<lparr>opt_gradient := None\<rparr>"
  let ?o2 = "photo_options\<lparr>opt_gradient := None, opt_image := Some ''pixel.png''\<rparr>"
  let ?p1 = "[(0, 0), (-300, -10), (14, -300), (304, 13), (-100, 303)] :: point list"
  let ?p2 = "[(0, 0), (-300, -10), (11, -300), (301, 11), (-100, 301)] :: point list"
  have a1: "opt_image ?o1 = Some ''photo.png''" by (simp add: photo_options_def)
  have a2: "''photo.png'' \<noteq> []" by simp
  have a3: "image_open photo_env ''photo.png'' = Some photo_image" by (simp add: photo_env_def)
  have a4: "1 \<le> fst (img_size photo_image)" "1 \<le> snd (img_size photo_image)"
    by (simp_all add: photo_image_def)
  have a5: "\<not> truthy_int (opt_darken_amount ?o1)"
    by (simp add: photo_options_def truthy_int_def)
  have a6: "generate_points (random_source photo_env) (opt_n_points ?o1) (img_size photo_image)
      (5 / 4) (opt_decluster ?o1) (rng_pos world0) = Inr (?p1, 2)"
    using photo_points by (simp add: photo_options_def photo_image_def world0_def)
  have a7: "delaunay_triangulation photo_env ?p1 = Some ?tri" by (simp add: photo_env_def)
  have a8: "?tri \<noteq> []" by simp
  have a9: "image_save photo_env (opt_filename ?o1) = None"
    by (simp add: photo_env_def photo_options_def)
  note first = image_mode_sampling[OF a1 a2 a3 a4 a5 a6 a7 a8 a9]
  have sz: "img_size photo_image = (4, 3)" by (simp add: photo_image_def)
  have clamp: "int_centroid (1280, - 717) (4, 3) = (3, 0)" "int_centroid (2, 1) (4, 3) = (2, 1)"
    using first by (simp_all add: sz spec_clamp_def)
  have samples: "map (\<lambda>t. spec_sample photo_image
                 (tri_centroid photo_env (cart_to_screen t (img_size photo_image)))) ?tri
      = [(30, 0, 30), (20, 20, 30)]"
    by (simp add: spec_sample_def spec_clamp_def photo_image_def photo_env_def
        cart_to_screen_def)
  from first samples have "\<exists>r w'. main photo_env ?o1 world0 = (Exit 0, w')
         \<and> files w' = files world0 @ [(opt_filename ?o1, r)]
         \<and> fills r = [(30, 0, 30), (20, 20, 30)]"
    by (metis (no_types, lifting))
  then have run1: "\<exists>r w'. main photo_env ?o1 world0 = (Exit 0, w')
         \<and> files w' = [(''triangles.png'', r)] \<and> fills r = [(30, 0, 30), (20, 20, 30)]"
    by (simp add: world0_def photo_options_def)
  have b1: "opt_image ?o2 = Some ''pixel.png''" by simp
  have b2: "''pixel.png'' \<noteq> []" by simp
  have b3: "image_open photo_env ''pixel.png'' = Some example_image" by (simp add: photo_env_def)
  have b4: "1 \<le> fst (img_size example_image)" "1 \<le> snd (img_size example_image)"
    by (simp_all add: example_image_def)
  have b5: "\<not> truthy_int (opt_darken_amount ?o2)"
    by (simp add: photo_options_def truthy_int_def)
  have b6: "generate_points (random_source photo_env) (opt_n_points ?o2) (img_size example_image)
      (5 / 4) (opt_decluster ?o2) (rng_pos world0) = Inr (?p2, 2)"
    using pixel_points by (simp add: photo_options_def example_image_def world0_def)
  have b7: "delaunay_triangulation photo_env ?p2 = Some ?tri" by (simp add: photo_env_def)
  have b9: "image_save photo_env (opt_filename ?o2) = None"
    by (simp add: photo_env_def photo_options_def)
  note second = image_mode_sampling[OF b1 b2 b3 b4 b5 b6 b7 a8 b9]
  have unit: "img_size example_image = (1, 1) \<and> img_pixels example_image (0, 0) = (10, 20, 30)"
    by (simp add: example_image_def)
  from second unit have "\<exists>r w'. main photo_env ?o2 world0 = (Exit 0, w')
         \<and> files w' = files world0 @ [(opt_filename ?o2, r)]
         \<and> fills r = replicate (length ?tri) (10, 20, 30)"
    by (metis (no_types, lifting))
  then have run2: "\<exists>r w'. main photo_env ?o2 world0 = (Exit 0, w')
         \<and> files w' = [(''triangles.png'', r)] \<and> fills r = [(10, 20, 30), (10, 20, 30)]"
    by (simp add: world0_def photo_options_def numeral_2_eq_2)
  from a3 sz photo_points a7 clamp run1 b3 run2 show ?thesis by blast
qed

theorem image_supersedes_gradient_witness:
  "opt_image photo_options = Some ''photo.png''
   \<and> truthy_str (opt_gradient photo_options)
   \<and> image_open photo_env ''photo.png'' = Some photo_image
   \<and> check_source photo_env photo_options world0
       = (Inr (Some photo_image),
          world0\<lparr>stdout := [''Image supercedes gradient; gradient selection ignored'']\<rparr>)
   \<and> darken_colors (random_source photo_env) (opt_darken_amount photo_options)
        [(30, 0, 30), (20, 20, 30)] 2 = Inr ([(30, 0, 30), (20, 20, 30)], 2)
   \<and> (\<exists>r w'. main photo_env photo_options world0 = (Exit 0, w')
         \<and> files w' = [(''triangles.png'', r)]
         \<and> fills r = [(30, 0, 30), (20, 20, 30)] \<and> ras_size r = (4, 3) \<and> rng_pos w' = 2)
   \<and> fst (main photo_env photo_options world0)
       = fst (main photo_env (photo_options\<lparr>opt_gradient := None\<rparr>) world0)
   \<and> files (snd (main photo_env photo_options world0))
       = files (snd (main photo_env (photo_options\<lparr>opt_gradient := None\<rparr>) world0))"
proof -
  let ?tri = "[[(1000, 700), (1400, 720), (1440, 740)], [(1, 1), (2, 2), (3, 3)]] :: triangle list"
  let ?p1 = "[(0, 0), (-300, -10), (14, -300), (304, 13), (-100, 303)] :: point list"
  have a1: "opt_image photo_options = Some ''photo.png''" by (simp add: photo_options_def)
  have a2: "''photo.png'' \<noteq> []" by simp
  have a3: "truthy_str (opt_gradient photo_options)"
    by (simp add: photo_options_def truthy_str_def)
  have a4: "image_open photo_env ''photo.png'' = Some photo_image" by (simp add: photo_env_def)
  have a5: "1 \<le> fst (img_size photo_image)" "1 \<le> snd (img_size photo_image)"
    by (simp_all add: photo_image_def)
  have a6: "generate_points (random_source photo_env) (opt_n_points photo_options)
      (img_size photo_image) (5 / 4) (opt_decluster photo_options) (rng_pos world0)
        = Inr (?p1, 2)"
    using photo_points by (simp add: photo_options_def photo_image_def world0_def)
  have a7: "delaunay_triangulation photo_env ?p1 = Some ?tri" by (simp add: photo_env_def)
  have a8: "?tri \<noteq> []" by simp
  have samples: "map (\<lambda>t. spec_sample photo_image
                 (tri_centroid photo_env (cart_to_screen t (img_size photo_image)))) ?tri
      = [(30, 0, 30), (20, 20, 30)]"
    by (simp add: spec_sample_def spec_clamp_def photo_image_def photo_env_def
        cart_to_screen_def)
  have dk: "darken_colors (random_source photo_env) (opt_darken_amount photo_options)
        [(30, 0, 30), (20, 20, 30)] 2 = Inr ([(30, 0, 30), (20, 20, 30)], 2)"
    by (simp add: darken_colors_def photo_options_def)
  have a9: "darken_colors (random_source photo_env) (opt_darken_amount photo_options)
           (map (\<lambda>t. spec_sample photo_image
                  (tri_centroid photo_env (cart_to_screen t (img_size photo_image)))) ?tri) 2
        = Inr ([(30, 0, 30), (20, 20, 30)], 2)"
    using dk by (simp only: samples)
  have a10: "image_save photo_env (opt_filename photo_options) = None"
    by (simp add: photo_env_def photo_options_def)
  note inst = image_supersedes_gradient[OF a1 a2 a3 a4 a5 a6 a7 a8 a9 a10]
  have src: "check_source photo_env photo_options world0
       = (Inr (Some photo_image),
          world0\<lparr>stdout := [''Image supercedes gradient; gradient selection ignored'']\<rparr>)"
    using inst by (simp add: py_print_def world0_def)
  from inst have "\<exists>r w'. main photo_env photo_options world0 = (Exit 0, w')
         \<and> files w' = files world0 @ [(opt_filename photo_options, r)]
         \<and> fills r = [(30, 0, 30), (20, 20, 30)] \<and> ras_size r = img_size photo_image
         \<and> rng_pos w' = 2"
    by blast
  then have run: "\<exists>r w'. main photo_env photo_options world0 = (Exit 0, w')
         \<and> files w' = [(''triangles.png'', r)]
         \<and> fills r = [(30, 0, 30), (20, 20, 30)] \<and> ras_size r = (4, 3) \<and> rng_pos w' = 2"
    by (simp add: world0_def photo_options_def photo_image_def)
  from inst a1 a3 a4 src dk run show ?thesis by blast
qed

theorem config_error_before_work_witness:
  "\<not> truthy_str (opt_image example_options)
   \<and> \<not> in_gradient (Some ''rainbow'')
   \<and> main example_env (example_options\<lparr>opt_gradient := Some ''rainbow''\<rparr>) world0
       = (Exit 64, world0\<lparr>stdout := [''Invalid gradient name'']\<rparr>)
   \<and> main example_env (example_options\<lparr>opt_gradient := None\<rparr>) world0
       = (Exit 64, world0\<lparr>stdout :=
            [''Must select either a gradient (-g) or input image (-i). See help for details.'']\<rparr>)"
proof -
  let ?o1 = "example_options\<lparr>opt_gradient := Some ''rainbow''\<rparr>"
  let ?o2 = "example_options\<lparr>opt_gradient := None\<rparr>"
  have img: "\<not> truthy_str (opt_image example_options)"
    by (simp add: example_options_def truthy_str_def)
  have bad: "\<not> in_gradient (Some ''rainbow'')"
    by (simp add: in_gradient_def gradient_def)
  have "fst (main example_env ?o1 world0) = Exit 64"
    using config_error_before_work[of ?o1 example_env world0] img bad by simp
  moreover have "snd (main example_env ?o1 world0) = world0\<lparr>stdout := [''Invalid gradient name'']\<rparr>"
    using bad img
    by (simp add: main_def check_source_def example_options_def truthy_str_def py_print_def
        world0_def)
  ultimately have m1: "main example_env ?o1 world0
       = (Exit 64, world0\<lparr>stdout := [''Invalid gradient name'']\<rparr>)"
    by (simp add: prod_eq_iff)
  have "fst (main example_env ?o2 world0) = Exit 64"
    using config_error_before_work[of ?o2 example_env world0] img
    by (simp add: truthy_str_def)
  moreover have "snd (main example_env ?o2 world0) = world0\<lparr>stdout :=
            [''Must select either a gradient (-g) or input image (-i). See help for details.'']\<rparr>"
    by (simp add: main_def check_source_def example_options_def truthy_str_def py_print_def
        world0_def)
  ultimately have m2: "main example_env ?o2 world0 = (Exit 64, world0\<lparr>stdout :=
            [''Must select either a gradient (-g) or input image (-i). See help for details.'']\<rparr>)"
    by (simp add: prod_eq_iff)
  from img bad m1 m2 show ?thesis by blast
qed

theorem triangulation_failure_aborts_witness:
  "check_source (example_env\<lparr>delaunay_triangulation := (\<lambda>ps. Some [])\<rparr>) example_options world0
     = (Inr None, world0)
   \<and> canvas_size example_options None world0 = (Inr (100, 100), world0)
   \<and> generate_points (random_source example_env) 1 (100, 100) (5 / 4) False 0
       = Inr ([(28, 45), (-300, -10), (110, -300), (400, 110), (-100, 400)], 2)
   \<and> \<not> truthy_tri (Some [])
   \<and> main (example_env\<lparr>delaunay_triangulation := (\<lambda>ps. Some [])\<rparr>) example_options world0
       = (Exit 1,
          \<lparr>stdout = [''Failed to find a triangulation.''], rng_pos = 2,
           triangulated = [[(28, 45), (-300, -10), (110, -300), (400, 110), (-100, 400)]],
           files = []\<rparr>)"
proof -
  let ?env = "example_env\<lparr>delaunay_triangulation := (\<lambda>ps. Some [])\<rparr>"
  let ?points = "[(28, 45), (-300, -10), (110, -300), (400, 110), (-100, 400)] :: point list"
  have h1: "check_source ?env example_options world0 = (Inr None, world0)"
    by (simp add: check_source_def example_options_def truthy_str_def in_gradient_def gradient_def)
  have h2: "canvas_size example_options None world0 = (Inr (100, 100), world0)"
    by (simp add: canvas_size_def example_options_def truthy_str_def le_zero_def)
  have h3: "generate_points (random_source ?env) (opt_n_points example_options) (100, 100) (5 / 4)
           (opt_decluster example_options) (rng_pos world0) = Inr (?points, 2)"
    using example_points by (simp add: example_options_def world0_def example_env_def)
  have h4: "\<not> truthy_tri (delaunay_triangulation ?env ?points)"
    by (simp add: truthy_tri_def)
  from triangulation_failure_aborts[OF h1 h2 h3 h4]
  have "main ?env example_options world0
       = (Exit 1,
          \<lparr>stdout = [''Failed to find a triangulation.''], rng_pos = 2,
           triangulated = [?points], files = []\<rparr>)"
    by (cases "main ?env example_options world0"; cases "snd (main ?env example_options world0)")
      (simp add: world0_def)
  with h1 h2 example_points show ?thesis by (simp add: truthy_tri_def)
qed

end
